theory Spec2Isabelle
  imports Complex_Main "HOL-Library.Word"
begin

unbundle bit_operations_syntax

section \<open>Revisions as the front end sees them (src/lib/types.ts)\<close>

text \<open>
  \<^verbatim>\<open>ArtifactType\<close> is a union of five string literals. The interfaces
  \<^verbatim>\<open>TranscriptRevision\<close> and \<^verbatim>\<open>ArtifactRevision\<close> become records. Both interfaces
  have fields called \<^verbatim>\<open>id\<close>, \<^verbatim>\<open>entry_id\<close>, \<^verbatim>\<open>version\<close>, \<^verbatim>\<open>text\<close>,
  \<^verbatim>\<open>is_manual_edit\<close> and \<^verbatim>\<open>created_at\<close>; the artifact record keeps the plain names
  (\<^verbatim>\<open>id\<close> and \<^verbatim>\<open>text\<close> are written \<open>artifact_id\<close> and \<open>artifact_text\<close>), the transcript
  record prefixes them with \<open>transcript_\<close>. A TypeScript \<^verbatim>\<open>number\<close> that holds a version is an
  integer.
\<close>

datatype ArtifactType =
  summary | analysis | critique_recruitment | critique_sales | critique_cs

record TranscriptRevision =
  transcript_id :: string
  transcript_entry_id :: string
  transcript_version :: int
  transcript_text :: string
  language :: string
  transcript_is_manual_edit :: bool
  transcript_created_at :: string

record ArtifactRevision =
  artifact_id :: string
  entry_id :: string
  artifact_type :: ArtifactType
  version :: int
  artifact_text :: string
  source_transcript_version :: int
  is_stale :: bool
  is_manual_edit :: bool
  created_at :: string

subsection \<open>latestByType (App.tsx)\<close>

text \<open>
  \<^verbatim>\<open>Array.prototype.sort\<close> with a comparator is a stable sort: an element \<open>a\<close> goes before
  \<open>b\<close> when \<open>cmp a b < 0\<close>, and elements that compare equal keep their order. Insertion
  from the right end of the array is such a sort.
\<close>

fun insert_cmp :: "('a \<Rightarrow> 'a \<Rightarrow> int) \<Rightarrow> 'a \<Rightarrow> 'a list \<Rightarrow> 'a list" where
  "insert_cmp cmp x [] = [x]"
| "insert_cmp cmp x (y # ys) =
     (if cmp x y \<le> 0 then x # y # ys else y # insert_cmp cmp x ys)"

definition sort_cmp :: "('a \<Rightarrow> 'a \<Rightarrow> int) \<Rightarrow> 'a list \<Rightarrow> 'a list" where
  "sort_cmp cmp xs = foldr (insert_cmp cmp) xs []"

text \<open>
  \<^verbatim>\<open>revisions.filter((item) => item.artifact_type === type)
       .sort((a, b) => b.version - a.version)[0]\<close>:
  index 0 of an empty array is \<^verbatim>\<open>undefined\<close>, here \<open>None\<close>.
\<close>

definition latestByType :: "ArtifactRevision list \<Rightarrow> ArtifactType \<Rightarrow> ArtifactRevision option" where
  "latestByType revisions type =
     (case sort_cmp (\<lambda>a b. version b - version a)
             (filter (\<lambda>item. artifact_type item = type) revisions) of
        [] \<Rightarrow> None
      | first # _ \<Rightarrow> Some first)"

section \<open>The revision store\<close>

text \<open>
  The commands \<^verbatim>\<open>transcribe_entry\<close>, \<^verbatim>\<open>update_transcript\<close>, \<^verbatim>\<open>generate_artifact\<close>,
  \<^verbatim>\<open>update_artifact\<close> and \<^verbatim>\<open>purge_entity\<close> are only invoked by src/lib/api.ts; the back
  end that implements them is not among the source files. The store and its operations are
  therefore modelled from sections 3, 4.4, 4.5 and 4.6 of the specification. The records of
  the revisions themselves are those of src/lib/types.ts above.
\<close>

text \<open>Modelled from the spec: the Revision Store, the append-only rows of transcript and
  artifact revisions of all entries (section 4.6); the store itself is missing from the
  sources.\<close>

record RevisionStore =
  stored_transcripts :: "TranscriptRevision list"
  stored_artifacts :: "ArtifactRevision list"

text \<open>Modelled from the spec: the store before any revision has been created.\<close>

definition empty_store :: RevisionStore where
  "empty_store = \<lparr>stored_transcripts = [], stored_artifacts = []\<rparr>"

text \<open>Modelled from the spec: the transcript revision sequence of one entry (section 3,
  "versions per entry"), in creation order.\<close>

definition transcripts_of :: "RevisionStore \<Rightarrow> string \<Rightarrow> TranscriptRevision list" where
  "transcripts_of st e = filter (\<lambda>r. transcript_entry_id r = e) (stored_transcripts st)"

text \<open>Modelled from the spec: the artifact revision sequence of one \<open>(entryId, artifactType)\<close>
  pair (section 3), in creation order.\<close>

definition artifacts_of :: "RevisionStore \<Rightarrow> string \<Rightarrow> ArtifactType \<Rightarrow> ArtifactRevision list" where
  "artifacts_of st e t =
     filter (\<lambda>a. entry_id a = e \<and> artifact_type a = t) (stored_artifacts st)"

text \<open>Modelled from the spec: the "current" transcript version of an entry, the maximum
  version of its transcript revisions (section 3); the prior maximum of an entry that has no
  revision is 0, so that its first revision gets version 1.\<close>

definition current_transcript_version :: "RevisionStore \<Rightarrow> string \<Rightarrow> int" where
  "current_transcript_version st e = foldr max (map transcript_version (transcripts_of st e)) 0"

text \<open>Modelled from the spec: the maximum version of the artifact revisions of one
  \<open>(entryId, artifactType)\<close> pair (section 4.6), 0 when there is none.\<close>

definition current_artifact_version :: "RevisionStore \<Rightarrow> string \<Rightarrow> ArtifactType \<Rightarrow> int" where
  "current_artifact_version st e t = foldr max (map version (artifacts_of st e t)) 0"

text \<open>Modelled from the spec: the staleness recomputation of section 3 for one artifact
  revision, when entry \<open>e\<close> gets the transcript version \<open>v\<close>: a revision of that entry is
  stale when \<open>v\<close> is greater than its source transcript version.\<close>

definition refresh_stale :: "string \<Rightarrow> int \<Rightarrow> ArtifactRevision \<Rightarrow> ArtifactRevision" where
  "refresh_stale e v a =
     (if entry_id a = e then a\<lparr>is_stale := source_transcript_version a < v\<rparr> else a)"

text \<open>Modelled from the spec: creation of a transcript revision (section 4.4), by the
  transcription orchestrator (\<open>manual = False\<close>) or by a manual edit (\<open>manual = True\<close>):
  \<open>version = priorMax + 1\<close>, and the stale flag of every artifact revision of the entry is
  refreshed and stored. The row id and the creation time are supplied by the caller.\<close>

definition create_transcript_revision ::
  "string \<Rightarrow> string \<Rightarrow> string \<Rightarrow> bool \<Rightarrow> string \<Rightarrow> string \<Rightarrow> RevisionStore \<Rightarrow> RevisionStore" where
  "create_transcript_revision e txt lang manual rid created st =
     (let v = current_transcript_version st e + 1;
          rev = \<lparr>transcript_id = rid, transcript_entry_id = e, transcript_version = v,
                 transcript_text = txt, language = lang, transcript_is_manual_edit = manual,
                 transcript_created_at = created\<rparr>
      in st\<lparr>stored_transcripts := stored_transcripts st @ [rev],
            stored_artifacts := map (refresh_stale e v) (stored_artifacts st)\<rparr>)"

text \<open>Modelled from the spec: creation of an artifact revision (section 4.5), by the
  generation orchestrator or by a manual edit: \<open>version = priorMax + 1\<close>,
  \<open>sourceTranscriptVersion\<close> is the transcript version current at that time, and
  \<open>isStale = false\<close>.\<close>

definition create_artifact_revision ::
  "string \<Rightarrow> ArtifactType \<Rightarrow> string \<Rightarrow> bool \<Rightarrow> string \<Rightarrow> string \<Rightarrow> RevisionStore \<Rightarrow> RevisionStore" where
  "create_artifact_revision e t txt manual rid created st =
     (let rev = \<lparr>artifact_id = rid, entry_id = e, artifact_type = t,
                 version = current_artifact_version st e t + 1, artifact_text = txt,
                 source_transcript_version = current_transcript_version st e,
                 is_stale = False, is_manual_edit = manual, created_at = created\<rparr>
      in st\<lparr>stored_artifacts := stored_artifacts st @ [rev]\<rparr>)"

text \<open>Modelled from the spec: the bulk purge of section 4.6, which deletes all revisions of
  an entry when the entry is purged.\<close>

definition purge_entry :: "string \<Rightarrow> RevisionStore \<Rightarrow> RevisionStore" where
  "purge_entry e st =
     st\<lparr>stored_transcripts := filter (\<lambda>r. transcript_entry_id r \<noteq> e) (stored_transcripts st),
        stored_artifacts := filter (\<lambda>a. entry_id a \<noteq> e) (stored_artifacts st)\<rparr>"

text \<open>Modelled from the spec: the errors of section 7 after which no revision is created,
  and the refusal of \<open>generate\<close> for an entry without a transcript revision (section 4.5).\<close>

datatype store_error =
    TranscriptionToolError string
  | GenerationRuntimeError string
  | NoTranscriptRevision

text \<open>Modelled from the spec: the requests that reach the store, named after the commands
  of src/lib/api.ts. \<open>Transcribe\<close> and \<open>Generate\<close> carry the outcome of the external tool
  (\<open>Inl\<close> its diagnostic text, \<open>Inr\<close> the text it produced); the last two strings of a
  creating request are the row id and the creation time.\<close>

datatype store_op =
    Transcribe string "string + string" string string string
  | UpdateTranscript string string string string string
  | Generate string ArtifactType "string + string" string string
  | UpdateArtifact string ArtifactType string string string
  | PurgeEntry string

text \<open>Modelled from the spec: one request on the store (sections 4.4 and 4.5). A failed tool
  run and a \<open>generate\<close> without transcript create no revision.\<close>

fun apply_op :: "store_op \<Rightarrow> RevisionStore \<Rightarrow> store_error + RevisionStore" where
  "apply_op (Transcribe e out lang rid created) st =
     (case out of
        Inl diagnostic \<Rightarrow> Inl (TranscriptionToolError diagnostic)
      | Inr txt \<Rightarrow> Inr (create_transcript_revision e txt lang False rid created st))"
| "apply_op (UpdateTranscript e txt lang rid created) st =
     Inr (create_transcript_revision e txt lang True rid created st)"
| "apply_op (Generate e t out rid created) st =
     (if transcripts_of st e = [] then Inl NoTranscriptRevision
      else case out of
             Inl diagnostic \<Rightarrow> Inl (GenerationRuntimeError diagnostic)
           | Inr txt \<Rightarrow> Inr (create_artifact_revision e t txt False rid created st))"
| "apply_op (UpdateArtifact e t txt rid created) st =
     Inr (create_artifact_revision e t txt True rid created st)"
| "apply_op (PurgeEntry e) st = Inr (purge_entry e st)"

text \<open>Modelled from the spec: a history of requests, served one after the other (revision
  creation is serialized per entry, section 4.6); a request that fails leaves the store as it
  was.\<close>

fun run_ops :: "store_op list \<Rightarrow> RevisionStore \<Rightarrow> RevisionStore" where
  "run_ops [] st = st"
| "run_ops (x # xs) st =
     (case apply_op x st of Inl _ \<Rightarrow> run_ops xs st | Inr st' \<Rightarrow> run_ops xs st')"

text \<open>The invariant of section 3, as a check on a store: every stored artifact revision is
  flagged stale exactly when the current transcript version of its entry is greater than its
  source transcript version.\<close>

definition stale_consistent :: "RevisionStore \<Rightarrow> bool" where
  "stale_consistent st \<longleftrightarrow>
     list_all (\<lambda>a. is_stale a = (source_transcript_version a < current_transcript_version st (entry_id a)))
       (stored_artifacts st)"

text \<open>A version sequence is gap-free, strictly increasing and starts at 1 when it is
  \<open>1, 2, ..., n\<close>.\<close>

definition gap_free :: "int list \<Rightarrow> bool" where
  "gap_free vs \<longleftrightarrow> vs = [1..int (length vs)]"

definition versions_gap_free :: "RevisionStore \<Rightarrow> bool" where
  "versions_gap_free st \<longleftrightarrow>
     (\<forall>e. gap_free (map transcript_version (transcripts_of st e))) \<and>
     (\<forall>e t. gap_free (map version (artifacts_of st e t)))"

section \<open>The native capture adapter (src-tauri/macos/screen_capture_audio.swift)\<close>

subsection \<open>Swift's Float\<close>

text \<open>
  A \<^verbatim>\<open>Float\<close> is a finite number, an infinity or NaN. Finite values are modelled by real
  numbers and arithmetic on them is exact: rounding, overflow to infinity and the sign of zero
  are outside the model. The special values follow IEEE 754: NaN is absorbing and compares
  false with everything, \<open>\<infinity> - \<infinity>\<close>, \<open>0 \<cdot> \<infinity>\<close>, \<open>0 / 0\<close> and \<open>\<infinity> / \<infinity>\<close> are NaN, the square root
  of a negative number is NaN.
\<close>

datatype Float = Finite real | PlusInfinity | MinusInfinity | NaN

fun float_sign :: "Float \<Rightarrow> real" where
  "float_sign (Finite a) = sgn a"
| "float_sign PlusInfinity = 1"
| "float_sign MinusInfinity = - 1"
| "float_sign NaN = 0"

definition infinity_of :: "real \<Rightarrow> Float" where
  "infinity_of s = (if 0 < s then PlusInfinity else if s < 0 then MinusInfinity else NaN)"

fun fmul :: "Float \<Rightarrow> Float \<Rightarrow> Float" where
  "fmul (Finite a) (Finite b) = Finite (a * b)"
| "fmul NaN y = NaN"
| "fmul x NaN = NaN"
| "fmul x y = infinity_of (float_sign x * float_sign y)"

fun fadd :: "Float \<Rightarrow> Float \<Rightarrow> Float" where
  "fadd (Finite a) (Finite b) = Finite (a + b)"
| "fadd NaN y = NaN"
| "fadd x NaN = NaN"
| "fadd PlusInfinity MinusInfinity = NaN"
| "fadd MinusInfinity PlusInfinity = NaN"
| "fadd PlusInfinity y = PlusInfinity"
| "fadd x PlusInfinity = PlusInfinity"
| "fadd MinusInfinity y = MinusInfinity"
| "fadd x MinusInfinity = MinusInfinity"

fun fdiv :: "Float \<Rightarrow> Float \<Rightarrow> Float" where
  "fdiv (Finite a) (Finite b) = (if b = 0 then infinity_of (sgn a) else Finite (a / b))"
| "fdiv NaN y = NaN"
| "fdiv x NaN = NaN"
| "fdiv (Finite a) y = Finite 0"
| "fdiv x (Finite b) = infinity_of (float_sign x * (if b < 0 then - 1 else 1))"
| "fdiv x y = NaN"

fun fsqrt :: "Float \<Rightarrow> Float" where
  "fsqrt (Finite a) = (if a < 0 then NaN else Finite (sqrt a))"
| "fsqrt PlusInfinity = PlusInfinity"
| "fsqrt MinusInfinity = NaN"
| "fsqrt NaN = NaN"

text \<open>The comparisons \<^verbatim>\<open><\<close> and \<^verbatim>\<open>>=\<close>.\<close>

fun flt :: "Float \<Rightarrow> Float \<Rightarrow> bool" where
  "flt (Finite a) (Finite b) = (a < b)"
| "flt NaN y = False"
| "flt x NaN = False"
| "flt x MinusInfinity = False"
| "flt MinusInfinity y = True"
| "flt PlusInfinity y = False"
| "flt x PlusInfinity = True"

fun fge :: "Float \<Rightarrow> Float \<Rightarrow> bool" where
  "fge (Finite a) (Finite b) = (b \<le> a)"
| "fge NaN y = False"
| "fge x NaN = False"
| "fge x MinusInfinity = True"
| "fge MinusInfinity y = False"
| "fge PlusInfinity y = True"
| "fge x PlusInfinity = False"

text \<open>
  The generic functions of the Swift standard library, \<^verbatim>\<open>min(x, y) = y < x ? y : x\<close> and
  \<^verbatim>\<open>max(x, y) = y >= x ? y : x\<close>, and the extension at the end of the source file,
  \<^verbatim>\<open>clamped(to: range) = min(max(self, range.lowerBound), range.upperBound)\<close>.
\<close>

definition swift_min :: "Float \<Rightarrow> Float \<Rightarrow> Float" where
  "swift_min x y = (if flt y x then y else x)"

definition swift_max :: "Float \<Rightarrow> Float \<Rightarrow> Float" where
  "swift_max x y = (if fge y x then y else x)"

definition clamped :: "Float \<Rightarrow> Float \<Rightarrow> Float \<Rightarrow> Float" where
  "clamped self lowerBound upperBound = swift_min (swift_max self lowerBound) upperBound"

text \<open>A level in \<open>[0, 1]\<close>: a finite number between 0 and 1.\<close>

fun in_unit_range :: "Float \<Rightarrow> bool" where
  "in_unit_range (Finite a) = (0 \<le> a \<and> a \<le> 1)"
| "in_unit_range x = False"

subsection \<open>Sample buffers and computeRmsLevel\<close>

text \<open>
  What \<^verbatim>\<open>computeRmsLevel\<close> reads of a \<^verbatim>\<open>CMSampleBuffer\<close>: its format description (which may
  be missing, and may lack a stream description), and the status and the buffers that
  \<^verbatim>\<open>CMSampleBufferGetAudioBufferListWithRetainedBlockBuffer\<close> gives. The memory behind
  \<^verbatim>\<open>mData\<close> is read through \<^verbatim>\<open>bindMemory\<close> either as \<^verbatim>\<open>Float\<close> or as \<^verbatim>\<open>Int16\<close> values,
  by index. The flags are those of CoreAudio: \<^verbatim>\<open>kAudioFormatFlagIsFloat\<close> is bit 0,
  \<^verbatim>\<open>kAudioFormatFlagIsSignedInteger\<close> is bit 2.
\<close>

datatype RawMemory = RawMemory (floatAt: "nat \<Rightarrow> Float") (int16At: "nat \<Rightarrow> 16 word")

record AudioStreamBasicDescription =
  mFormatFlags :: "32 word"
  mBitsPerChannel :: "32 word"

record AudioBuffer =
  mNumberChannels :: "32 word"
  mDataByteSize :: "32 word"
  mData :: "RawMemory option"

datatype CMFormatDescription =
  CMFormatDescription (streamBasicDescription: "AudioStreamBasicDescription option")

record CMSampleBuffer =
  formatDescription :: "CMFormatDescription option"
  audioBufferListStatus :: int
  audioBufferList :: "AudioBuffer list"

definition noErr :: int where
  "noErr = 0"

definition kAudioFormatFlagIsFloat :: "32 word" where
  "kAudioFormatFlagIsFloat = 1"

definition kAudioFormatFlagIsSignedInteger :: "32 word" where
  "kAudioFormatFlagIsSignedInteger = 4"

text \<open>The two inner iterations, \<^verbatim>\<open>for idx in 0..<count { ...; accum += sample * sample }\<close>.\<close>

definition accumulate_float :: "RawMemory \<Rightarrow> nat \<Rightarrow> Float \<Rightarrow> Float" where
  "accumulate_float samples count accum =
     fold (\<lambda>idx accum. let sample = floatAt samples idx in fadd accum (fmul sample sample))
       [0..<count] accum"

definition accumulate_int16 :: "RawMemory \<Rightarrow> nat \<Rightarrow> Float \<Rightarrow> Float" where
  "accumulate_int16 samples count accum =
     fold (\<lambda>idx accum.
             let sample = fdiv (Finite (real_of_int (sint (int16At samples idx)))) (Finite 32768)
             in fadd accum (fmul sample sample))
       [0..<count] accum"

text \<open>The body of \<^verbatim>\<open>for buffer in buffers\<close>, on the pair \<open>(accum, sampleCount)\<close>; a buffer
  without data is skipped (\<^verbatim>\<open>continue\<close>).\<close>

definition accumulate_buffer ::
  "bool \<Rightarrow> bool \<Rightarrow> nat \<Rightarrow> AudioBuffer \<Rightarrow> Float \<times> nat \<Rightarrow> Float \<times> nat" where
  "accumulate_buffer isFloat isSignedInt bitsPerChannel buffer state =
     (case state of (accum, sampleCount) \<Rightarrow>
        (case mData buffer of
           None \<Rightarrow> (accum, sampleCount)
         | Some data \<Rightarrow>
             let byteCount = unat (mDataByteSize buffer) in
             if isFloat \<and> bitsPerChannel = 32 then
               let count = byteCount div 4
               in (accumulate_float data count accum, sampleCount + count)
             else if isSignedInt \<and> bitsPerChannel = 16 then
               let count = byteCount div 2
               in (accumulate_int16 data count accum, sampleCount + count)
             else (accum, sampleCount)))"

definition computeRmsLevel :: "CMSampleBuffer \<Rightarrow> Float" where
  "computeRmsLevel sampleBuffer =
     (case formatDescription sampleBuffer of
        None \<Rightarrow> Finite 0
      | Some description \<Rightarrow>
     (case streamBasicDescription description of
        None \<Rightarrow> Finite 0
      | Some asbd \<Rightarrow>
          if audioBufferListStatus sampleBuffer \<noteq> noErr then Finite 0
          else
            let isFloat = (mFormatFlags asbd AND kAudioFormatFlagIsFloat \<noteq> 0);
                isSignedInt = (mFormatFlags asbd AND kAudioFormatFlagIsSignedInteger \<noteq> 0);
                bitsPerChannel = unat (mBitsPerChannel asbd);
                (accum, sampleCount) =
                  fold (accumulate_buffer isFloat isSignedInt bitsPerChannel)
                    (audioBufferList sampleBuffer) (Finite 0, 0)
            in if sampleCount = 0 then Finite 0
               else
                 let rms = fsqrt (fdiv accum (Finite (real sampleCount)))
                 in swift_min (Finite 1) (fmul rms (Finite 2.8))))"

subsection \<open>The recorder and what it does to the outside\<close>

datatype RecorderError = missingOutputPath | unsupportedMacOS | noDisplayFound | writerInputRejected

text \<open>An error value is one of the recorder's own or one thrown by a framework, which is
  known by its description. \<open>describe\<close> is the text that string interpolation gives for it.\<close>

datatype SwiftError = Recorder RecorderError | Foreign string

fun describe :: "SwiftError \<Rightarrow> string" where
  "describe (Recorder missingOutputPath) = ''missingOutputPath''"
| "describe (Recorder unsupportedMacOS) = ''unsupportedMacOS''"
| "describe (Recorder noDisplayFound) = ''noDisplayFound''"
| "describe (Recorder writerInputRejected) = ''writerInputRejected''"
| "describe (Foreign description) = description"

text \<open>
  The lines written to standard error: \<^verbatim>\<open>sck_error=...\<close>, \<^verbatim>\<open>total_size=...\<close>,
  \<^verbatim>\<open>out_time_us=...\<close> and \<^verbatim>\<open>level=...\<close>. An error line is kept by the statement that writes
  it; \<open>sck_error_text\<close> is its text.
\<close>

datatype SckErrorMessage =
    NoAudioSamples
  | InitializeWriterFailed SwiftError
  | AppendFailed "SwiftError option"
  | RunFailed SwiftError

fun sck_error_text :: "SckErrorMessage \<Rightarrow> string" where
  "sck_error_text NoAudioSamples =
     ''No audio samples received from ScreenCaptureKit. Check Screen & System Audio Recording permission and make sure app/call audio is actively playing.''"
| "sck_error_text (InitializeWriterFailed error) = ''Failed to initialize writer: '' @ describe error"
| "sck_error_text (AppendFailed details) =
     ''Failed to append audio sample to writer: '' @
       (case details of Some error \<Rightarrow> describe error | None \<Rightarrow> ''unknown append failure'')"
| "sck_error_text (RunFailed error) = describe error"

datatype StderrLine =
    SckError SckErrorMessage
  | TotalSize nat
  | OutTimeUs nat
  | Level Float

text \<open>
  The trace of a run lists, in program order, what the recorder does to the outside: the
  lines it writes, its calls of \<^verbatim>\<open>initializeWriter\<close> (with the error thrown, if any), of
  \<^verbatim>\<open>writerInput.append\<close> (with its result), of \<^verbatim>\<open>stream.stopCapture\<close> (with the error
  thrown, if any), of \<^verbatim>\<open>markAsFinished\<close> and of \<^verbatim>\<open>finishWriting\<close> (recorded when its
  completion handler has run), and the exit of the process with its status.
  \<open>EmitTelemetry now force\<close> marks a call of \<^verbatim>\<open>emitTelemetry(force:)\<close> that got past the
  throttle, with the time it read.
\<close>

datatype Action =
    Stderr StderrLine
  | EmitTelemetry real bool
  | InitializeWriter "SwiftError option"
  | Append bool
  | StopCapture "SwiftError option"
  | MarkAsFinished
  | FinishWriting
  | Exit int

datatype AVAssetWriter = AVAssetWriter
datatype AVAssetWriterInput = AVAssetWriterInput
datatype Continuation = Continuation

text \<open>
  Where \<^verbatim>\<open>run()\<close> stands: not yet at the wait, suspended in \<^verbatim>\<open>waitUntilStopRequested\<close>,
  resumed from it (about to call \<^verbatim>\<open>stopCapture\<close>), or over: the process has exited with a
  status, or it has been stopped by a runtime trap.
\<close>

datatype RunState = NotStarted | Waiting | Resumed | Exited int | Trapped

text \<open>
  The stored properties of \<^verbatim>\<open>SystemAudioRecorder\<close> that the callbacks use; a \<^verbatim>\<open>Date\<close> is a
  real number of seconds. Three fields are not properties of the class: whether
  \<^verbatim>\<open>FileHandle.standardInput.readabilityHandler\<close> is set, the state of \<^verbatim>\<open>run()\<close>, and the
  trace.
\<close>

record SystemAudioRecorder =
  writer :: "AVAssetWriter option"
  writerInput :: "AVAssetWriterInput option"
  stopContinuation :: "Continuation option"
  stopRequested :: bool
  startedAt :: real
  lastTelemetry :: real
  smoothedLevel :: Float
  hasReceivedAudioSample :: bool
  emittedNoSampleError :: bool
  readabilityHandler :: bool
  run :: RunState
  trace :: "Action list"

text \<open>\<^verbatim>\<open>Date.distantPast\<close>, in seconds from the reference date.\<close>

definition distantPast :: real where
  "distantPast = - 63114076800"

text \<open>The recorder as \<^verbatim>\<open>init(outputURL:)\<close> leaves it, created at time \<open>date\<close>.\<close>

definition init :: "real \<Rightarrow> SystemAudioRecorder" where
  "init date =
     \<lparr>writer = None, writerInput = None, stopContinuation = None, stopRequested = False,
      startedAt = date, lastTelemetry = distantPast, smoothedLevel = Finite 0,
      hasReceivedAudioSample = False, emittedNoSampleError = False,
      readabilityHandler = False, run = NotStarted, trace = []\<rparr>"

text \<open>
  What the environment answers during one call of the sample handler: whether
  \<^verbatim>\<open>AVAssetWriter(outputURL:fileType:)\<close> throws, the results of \<^verbatim>\<open>canAdd\<close> and
  \<^verbatim>\<open>startWriting\<close>, the value of \<^verbatim>\<open>writer.error\<close>, of \<^verbatim>\<open>isReadyForMoreMediaData\<close> and the
  result of \<^verbatim>\<open>append\<close>. And what it answers during one call of \<^verbatim>\<open>emitTelemetry\<close>: the
  time \<^verbatim>\<open>Date()\<close> and the size attribute of the output file (\<open>None\<close> when it cannot be read).
\<close>

record WriterEnv =
  assetWriterError :: "SwiftError option"
  canAdd :: bool
  startWriting :: bool
  writerError :: "SwiftError option"
  isReadyForMoreMediaData :: bool
  appendResult :: bool

record TelemetryEnv =
  now :: real
  fileSize :: "nat option"

text \<open>
  \<^verbatim>\<open>requestStop\<close> (lines 168 to 176). Resuming the continuation lets \<^verbatim>\<open>run()\<close> go on after
  its wait.
\<close>

definition requestStop :: "SystemAudioRecorder \<Rightarrow> SystemAudioRecorder" where
  "requestStop self =
     (if stopRequested self then self
      else self\<lparr>stopRequested := True,
                readabilityHandler := False,
                run := (case stopContinuation self of None \<Rightarrow> run self | Some _ \<Rightarrow> Resumed),
                stopContinuation := None\<rparr>)"

text \<open>\<^verbatim>\<open>initializeWriter\<close> (lines 112 to 143): \<open>Inl\<close> is the error thrown.\<close>

definition initializeWriter ::
  "WriterEnv \<Rightarrow> SystemAudioRecorder \<Rightarrow> SwiftError + SystemAudioRecorder" where
  "initializeWriter env self =
     (case assetWriterError env of
        Some error \<Rightarrow> Inl error
      | None \<Rightarrow>
          if \<not> canAdd env then Inl (Recorder writerInputRejected)
          else if \<not> startWriting env then
            Inl (case writerError env of Some error \<Rightarrow> error | None \<Rightarrow> Recorder writerInputRejected)
          else Inr (self\<lparr>writer := Some AVAssetWriter, writerInput := Some AVAssetWriterInput\<rparr>))"

text \<open>
  \<^verbatim>\<open>emitTelemetry\<close> (lines 190 to 209). The conversion \<^verbatim>\<open>UInt64(...)\<close> of the elapsed
  microseconds traps when the value is \<open>-1\<close> or less, or \<open>2\<^sup>6\<^sup>4\<close> or more; it truncates
  otherwise. It comes after the error line and before the three telemetry lines.
\<close>

definition emitTelemetry :: "bool \<Rightarrow> TelemetryEnv \<Rightarrow> SystemAudioRecorder \<Rightarrow> SystemAudioRecorder" where
  "emitTelemetry force env self =
     (if \<not> force \<and> now env - lastTelemetry self < 0.20 then self
      else
        let self1 = self\<lparr>lastTelemetry := now env,
                         trace := trace self @ [EmitTelemetry (now env) force]\<rparr>;
            self2 =
              (if \<not> hasReceivedAudioSample self1 \<and> \<not> emittedNoSampleError self1
                  \<and> now env - startedAt self1 > 2.5
               then self1\<lparr>emittedNoSampleError := True,
                          trace := trace self1 @ [Stderr (SckError NoAudioSamples)]\<rparr>
               else self1);
            bytes = (case fileSize env of Some n \<Rightarrow> n | None \<Rightarrow> 0);
            micros = (now env - startedAt self2) * 1000000
        in if micros \<le> - 1 \<or> 18446744073709551616 \<le> micros then self2\<lparr>run := Trapped\<rparr>
           else self2\<lparr>trace := trace self2 @
                  [Stderr (TotalSize bytes), Stderr (OutTimeUs (nat \<lfloor>micros\<rfloor>)),
                   Stderr (Level (smoothedLevel self2))]\<rparr>)"

subsection \<open>The callbacks\<close>

text \<open>
  The sample handler \<^verbatim>\<open>stream(_:didOutputSampleBuffer:of:)\<close> (lines 69 to 110) in three
  blocks, each of which may end the call (\<open>Inl\<close>) or let it go on (\<open>Inr\<close>). Lines 82 to 91:
  the writer is initialized when there is none; a failure writes the error line, requests
  stop and returns.
\<close>

definition initializeWriterIfNeeded ::
  "WriterEnv \<Rightarrow> SystemAudioRecorder \<Rightarrow> SystemAudioRecorder + SystemAudioRecorder" where
  "initializeWriterIfNeeded wenv self =
     (if writer self = None then
        (case initializeWriter wenv self of
           Inl error \<Rightarrow>
             Inl (requestStop (self\<lparr>trace := trace self @
                    [InitializeWriter (Some error),
                     Stderr (SckError (InitializeWriterFailed error))]\<rparr>))
         | Inr self' \<Rightarrow> Inr (self'\<lparr>trace := trace self' @ [InitializeWriter None]\<rparr>))
      else Inr self)"

text \<open>Lines 93 to 105: without a writer input the call returns; the buffer is appended when
  the input is ready, and a failed append writes the error line, requests stop and returns.\<close>

definition appendSampleBuffer ::
  "WriterEnv \<Rightarrow> SystemAudioRecorder \<Rightarrow> SystemAudioRecorder + SystemAudioRecorder" where
  "appendSampleBuffer wenv self =
     (case writerInput self of
        None \<Rightarrow> Inl self
      | Some input \<Rightarrow>
          if isReadyForMoreMediaData wenv then
            (if \<not> appendResult wenv then
               let details = writerError wenv
               in Inl (requestStop (self\<lparr>trace := trace self @
                         [Append False, Stderr (SckError (AppendFailed details))]\<rparr>))
             else Inr (self\<lparr>trace := trace self @ [Append True]\<rparr>))
          else Inr self)"

text \<open>Lines 107 to 109: the level of the buffer, the smoothed level, the telemetry.\<close>

definition updateLevel ::
  "CMSampleBuffer \<Rightarrow> TelemetryEnv \<Rightarrow> SystemAudioRecorder \<Rightarrow> SystemAudioRecorder" where
  "updateLevel sampleBuffer tenv self =
     (let level = computeRmsLevel sampleBuffer;
          self' = self\<lparr>smoothedLevel :=
                    clamped (fadd (fmul (smoothedLevel self) (Finite 0.75))
                                  (fmul level (Finite 0.25)))
                      (Finite 0) (Finite 1)\<rparr>
      in emitTelemetry False tenv self')"

datatype SCStreamOutputType = screen | audio | microphone

text \<open>The handler: \<open>isValid\<close> is the result of \<^verbatim>\<open>CMSampleBufferIsValid\<close>.\<close>

definition stream ::
  "SCStreamOutputType \<Rightarrow> bool \<Rightarrow> CMSampleBuffer \<Rightarrow> WriterEnv \<Rightarrow> TelemetryEnv
     \<Rightarrow> SystemAudioRecorder \<Rightarrow> SystemAudioRecorder" where
  "stream outputType isValid sampleBuffer wenv tenv self =
     (if outputType \<noteq> audio then self
      else if \<not> isValid then self
      else
        case initializeWriterIfNeeded wenv (self\<lparr>hasReceivedAudioSample := True\<rparr>) of
          Inl returned \<Rightarrow> returned
        | Inr self1 \<Rightarrow>
            (case appendSampleBuffer wenv self1 of
               Inl returned \<Rightarrow> returned
             | Inr self2 \<Rightarrow> updateLevel sampleBuffer tenv self2))"

text \<open>
  The readability handler of standard input (lines 146 to 155): the bytes read, and their
  text when they decode as UTF-8. End of input, or text that contains \<^verbatim>\<open>q\<close>, requests stop.
\<close>

definition stdinHandler :: "string \<Rightarrow> string option \<Rightarrow> SystemAudioRecorder \<Rightarrow> SystemAudioRecorder" where
  "stdinHandler availableData decoded self =
     (if availableData = [] then requestStop self
      else case decoded of
             Some text \<Rightarrow> if CHR ''q'' \<in> set text then requestStop self else self
           | None \<Rightarrow> self)"

text \<open>\<^verbatim>\<open>finalizeWriter\<close> (lines 178 to 188); it returns when \<^verbatim>\<open>finishWriting\<close> has called
  its completion handler.\<close>

definition finalizeWriter :: "SystemAudioRecorder \<Rightarrow> SystemAudioRecorder" where
  "finalizeWriter self =
     (case (writer self, writerInput self) of
        (Some w, Some input) \<Rightarrow> self\<lparr>trace := trace self @ [MarkAsFinished, FinishWriting]\<rparr>
      | _ \<Rightarrow> self)"

subsection \<open>run() and the process\<close>

text \<open>
  \<^verbatim>\<open>run()\<close> up to its wait (lines 33 to 63). \<open>startError\<close> is the first error thrown on the
  way, if any (no macOS 13, the output directory, the shareable content, no display, adding
  the stream output, \<^verbatim>\<open>startCapture\<close>): \<^verbatim>\<open>main\<close> writes it as an error line and exits with
  status 1. Otherwise the readability handler is installed, \<open>startedAt\<close> is set to the time
  read, capture starts and \<^verbatim>\<open>waitUntilStopRequested\<close> returns at once or suspends.
\<close>

definition run_start :: "SwiftError option \<Rightarrow> real \<Rightarrow> SystemAudioRecorder \<Rightarrow> SystemAudioRecorder" where
  "run_start startError date self =
     (case startError of
        Some error \<Rightarrow>
          self\<lparr>trace := trace self @ [Stderr (SckError (RunFailed error)), Exit 1], run := Exited 1\<rparr>
      | None \<Rightarrow>
          let self1 = self\<lparr>readabilityHandler := True, startedAt := date\<rparr>
          in if stopRequested self1 then self1\<lparr>run := Resumed\<rparr>
             else self1\<lparr>stopContinuation := Some Continuation, run := Waiting\<rparr>)"

text \<open>
  \<^verbatim>\<open>run()\<close> after its wait (lines 64 to 66), and the end of \<^verbatim>\<open>main\<close>: an error thrown by
  \<^verbatim>\<open>stopCapture\<close> leaves \<^verbatim>\<open>run()\<close> at once, \<^verbatim>\<open>main\<close> writes it and exits with status 1;
  otherwise the writer is finalized, the telemetry is emitted with \<^verbatim>\<open>force: true\<close> and the
  process ends with status 0.
\<close>

definition run_finish :: "SwiftError option \<Rightarrow> TelemetryEnv \<Rightarrow> SystemAudioRecorder \<Rightarrow> SystemAudioRecorder" where
  "run_finish stopCaptureError tenv self =
     (case stopCaptureError of
        Some error \<Rightarrow>
          self\<lparr>trace := trace self @
                 [StopCapture (Some error), Stderr (SckError (RunFailed error)), Exit 1],
               run := Exited 1\<rparr>
      | None \<Rightarrow>
          let self1 = finalizeWriter (self\<lparr>trace := trace self @ [StopCapture None]\<rparr>);
              self2 = emitTelemetry True tenv self1
          in if run self2 = Trapped then self2
             else self2\<lparr>trace := trace self2 @ [Exit 0], run := Exited 0\<rparr>)"

text \<open>
  A run is driven by what arrives from outside: a sample buffer for the handler, readable
  standard input, and the return of \<^verbatim>\<open>stopCapture\<close>, which \<^verbatim>\<open>run()\<close> calls once it has
  been resumed. Each is served as one step, one after the other; their interleaving inside a
  callback is not modelled. Sample buffers keep arriving after a stop request, until
  \<^verbatim>\<open>stopCapture\<close> has returned; nothing is served once the process is over.
\<close>

datatype Event =
    SampleBuffer SCStreamOutputType bool CMSampleBuffer WriterEnv TelemetryEnv
  | StdinReadable string "string option"
  | StopCaptureReturns "SwiftError option" TelemetryEnv

fun step :: "Event \<Rightarrow> SystemAudioRecorder \<Rightarrow> SystemAudioRecorder" where
  "step (SampleBuffer outputType isValid sampleBuffer wenv tenv) self =
     (if run self = Waiting \<or> run self = Resumed
      then stream outputType isValid sampleBuffer wenv tenv self else self)"
| "step (StdinReadable availableData decoded) self =
     (if (run self = Waiting \<or> run self = Resumed) \<and> readabilityHandler self
      then stdinHandler availableData decoded self else self)"
| "step (StopCaptureReturns stopCaptureError tenv) self =
     (if run self = Resumed then run_finish stopCaptureError tenv self else self)"

definition run_events :: "Event list \<Rightarrow> SystemAudioRecorder \<Rightarrow> SystemAudioRecorder" where
  "run_events events self = fold step events self"

text \<open>The recorder when capture has started at time \<open>date\<close>.\<close>

definition started :: "real \<Rightarrow> SystemAudioRecorder" where
  "started date = run_start None date (init date)"

section \<open>Notions used to state the properties\<close>

subsection \<open>The level as the specification words it\<close>

text \<open>
  The samples that \<^verbatim>\<open>computeRmsLevel\<close> interprets, as one list over all buffers: the
  \<^verbatim>\<open>Float\<close> values of a 32-bit float layout, the \<^verbatim>\<open>Int16\<close> values divided by 32768 of a
  16-bit signed integer layout, none for any other layout or for a buffer without data.
\<close>

definition buffer_samples :: "AudioStreamBasicDescription \<Rightarrow> AudioBuffer \<Rightarrow> Float list" where
  "buffer_samples asbd buffer =
     (case mData buffer of
        None \<Rightarrow> []
      | Some data \<Rightarrow>
          if mFormatFlags asbd AND kAudioFormatFlagIsFloat \<noteq> 0 \<and> unat (mBitsPerChannel asbd) = 32
          then map (floatAt data) [0..<unat (mDataByteSize buffer) div 4]
          else if mFormatFlags asbd AND kAudioFormatFlagIsSignedInteger \<noteq> 0
                  \<and> unat (mBitsPerChannel asbd) = 16
          then map (\<lambda>idx. fdiv (Finite (real_of_int (sint (int16At data idx)))) (Finite 32768))
                 [0..<unat (mDataByteSize buffer) div 2]
          else [])"

definition interpreted_samples :: "AudioStreamBasicDescription \<Rightarrow> AudioBuffer list \<Rightarrow> Float list" where
  "interpreted_samples asbd buffers = concat (map (buffer_samples asbd) buffers)"

text \<open>
  The specification's level of a list of samples: their root mean square, times the gain 2.8,
  at most 1 (and 0 for no sample). And its smoothing: 0.75 of the prior level plus 0.25 of the
  new one, clamped to \<open>[0, 1]\<close>.
\<close>

definition sum_of_squares :: "Float list \<Rightarrow> Float" where
  "sum_of_squares samples = foldl (\<lambda>accum sample. fadd accum (fmul sample sample)) (Finite 0) samples"

definition spec_rms_level :: "Float list \<Rightarrow> Float" where
  "spec_rms_level samples =
     (if samples = [] then Finite 0
      else swift_min (Finite 1)
             (fmul (fsqrt (fdiv (sum_of_squares samples) (Finite (real (length samples)))))
                (Finite 2.8)))"

definition spec_smoothed :: "Float \<Rightarrow> Float \<Rightarrow> Float" where
  "spec_smoothed prior new =
     clamped (fadd (fmul prior (Finite 0.75)) (fmul new (Finite 0.25))) (Finite 0) (Finite 1)"

text \<open>A value that is not below zero: what a sum of squares can be.\<close>

fun not_negative :: "Float \<Rightarrow> bool" where
  "not_negative (Finite a) = (0 \<le> a)"
| "not_negative PlusInfinity = True"
| "not_negative MinusInfinity = False"
| "not_negative NaN = True"

subsection \<open>Readings of a trace\<close>

text \<open>The run is going on: the process is still there to serve callbacks.\<close>

definition active :: "SystemAudioRecorder \<Rightarrow> bool" where
  "active self \<longleftrightarrow> run self = Waiting \<or> run self = Resumed"

text \<open>The telemetry emissions of a trace, each with its time and its force flag; the times of
  the emissions that were not forced; the values of the \<^verbatim>\<open>level=\<close>, \<^verbatim>\<open>total_size=\<close> and
  \<^verbatim>\<open>out_time_us=\<close> lines.\<close>

definition emissions :: "Action list \<Rightarrow> (real \<times> bool) list" where
  "emissions actions =
     concat (map (\<lambda>a. case a of EmitTelemetry t force \<Rightarrow> [(t, force)] | _ \<Rightarrow> []) actions)"

definition unforced_times :: "Action list \<Rightarrow> real list" where
  "unforced_times actions = map fst (filter (\<lambda>e. \<not> snd e) (emissions actions))"

definition level_lines :: "Action list \<Rightarrow> Float list" where
  "level_lines actions =
     concat (map (\<lambda>a. case a of Stderr (Level x) \<Rightarrow> [x] | _ \<Rightarrow> []) actions)"

definition total_size_lines :: "Action list \<Rightarrow> nat list" where
  "total_size_lines actions =
     concat (map (\<lambda>a. case a of Stderr (TotalSize n) \<Rightarrow> [n] | _ \<Rightarrow> []) actions)"

definition out_time_lines :: "Action list \<Rightarrow> nat list" where
  "out_time_lines actions =
     concat (map (\<lambda>a. case a of Stderr (OutTimeUs n) \<Rightarrow> [n] | _ \<Rightarrow> []) actions)"

text \<open>The emissions whose lines were written: all of them, but for a last one that the trap
  of the conversion has stopped.\<close>

definition written_emissions :: "SystemAudioRecorder \<Rightarrow> (real \<times> bool) list" where
  "written_emissions self =
     (if run self = Trapped then butlast (emissions (trace self)) else emissions (trace self))"

text \<open>The writer input has been marked as finished, or \<^verbatim>\<open>finishWriting\<close> has completed.\<close>

definition finalized :: "Action list \<Rightarrow> bool" where
  "finalized actions \<longleftrightarrow> MarkAsFinished \<in> set actions \<or> FinishWriting \<in> set actions"

text \<open>An attempt to initialize the writer, and a failed one.\<close>

fun is_initialize :: "Action \<Rightarrow> bool" where
  "is_initialize (InitializeWriter outcome) = True"
| "is_initialize a = False"

fun is_failed_initialize :: "Action \<Rightarrow> bool" where
  "is_failed_initialize (InitializeWriter (Some error)) = True"
| "is_failed_initialize a = False"

text \<open>The arrival of a valid audio sample: a buffer of type \<^verbatim>\<open>.audio\<close> for which
  \<^verbatim>\<open>CMSampleBufferIsValid\<close> holds.\<close>

fun is_valid_audio :: "Event \<Rightarrow> bool" where
  "is_valid_audio (SampleBuffer outputType isValid sampleBuffer wenv tenv) \<longleftrightarrow> outputType = audio \<and> isValid"
| "is_valid_audio (StdinReadable availableData decoded) \<longleftrightarrow> False"
| "is_valid_audio (StopCaptureReturns stopCaptureError tenv) \<longleftrightarrow> False"

definition passes_throttle :: "bool \<Rightarrow> TelemetryEnv \<Rightarrow> SystemAudioRecorder \<Rightarrow> bool" where
  "passes_throttle force env self \<longleftrightarrow> force \<or> \<not> now env - lastTelemetry self < 0.20"

subsection \<open>Invariants of a run\<close>

text \<open>\<^verbatim>\<open>run()\<close> waits exactly as long as no stop has been requested.\<close>

definition control_ok :: "SystemAudioRecorder \<Rightarrow> bool" where
  "control_ok self \<longleftrightarrow>
     run self \<noteq> NotStarted \<and>
     (run self = Waiting \<longrightarrow> \<not> stopRequested self \<and> stopContinuation self \<noteq> None) \<and>
     (run self = Resumed \<longrightarrow> stopRequested self)"

text \<open>The latch \<open>emittedNoSampleError\<close> counts the no-sample error lines, and is set only when
  the run is over and no valid audio sample was received.\<close>

definition no_sample_ok :: "real \<Rightarrow> SystemAudioRecorder \<Rightarrow> bool" where
  "no_sample_ok date self \<longleftrightarrow>
     startedAt self = date \<and>
     (emittedNoSampleError self \<longrightarrow>
        \<not> hasReceivedAudioSample self \<and> stopRequested self \<and> \<not> active self) \<and>
     count_list (trace self) (Stderr (SckError NoAudioSamples))
       = (if emittedNoSampleError self then 1 else 0)"

definition no_sample_inv :: "real \<Rightarrow> SystemAudioRecorder \<Rightarrow> bool" where
  "no_sample_inv date s \<longleftrightarrow> control_ok s \<and> no_sample_ok date s"

text \<open>Unforced emissions are 0.2 s apart, none is later than \<open>lastTelemetry\<close>, and a forced
  emission is the last emission of a run that is over.\<close>

definition throttle_ok :: "SystemAudioRecorder \<Rightarrow> bool" where
  "throttle_ok self \<longleftrightarrow>
     sorted_wrt (\<lambda>earlier later. 0.2 \<le> later - earlier) (unforced_times (trace self)) \<and>
     (\<forall>e \<in> set (butlast (emissions (trace self))). \<not> snd e) \<and>
     (active self \<longrightarrow>
        (\<forall>t \<in> set (unforced_times (trace self)). t \<le> lastTelemetry self) \<and>
        (\<forall>e \<in> set (emissions (trace self)). \<not> snd e))"

definition forced_ok :: "SystemAudioRecorder \<Rightarrow> bool" where
  "forced_ok self \<longleftrightarrow>
     control_ok self \<and> (list_ex snd (emissions (trace self)) \<longrightarrow> stopRequested self)"

text \<open>A writer exists only after a valid audio sample, together with its input and after
  exactly one successful initialization; a failed initialization has requested stop.\<close>

definition writer_ok :: "SystemAudioRecorder \<Rightarrow> bool" where
  "writer_ok self \<longleftrightarrow>
     (writer self \<noteq> None \<longrightarrow> hasReceivedAudioSample self) \<and>
     (writer self = None \<longrightarrow> writerInput self = None) \<and>
     (writerInput self = None \<longrightarrow> writer self = None) \<and>
     count_list (trace self) (InitializeWriter None) = (if writer self = None then 0 else 1) \<and>
     (\<not> hasReceivedAudioSample self \<longrightarrow> \<not> list_ex is_initialize (trace self)) \<and>
     (list_ex is_failed_initialize (trace self) \<longrightarrow> stopRequested self)"

definition level_ok :: "SystemAudioRecorder \<Rightarrow> bool" where
  "level_ok self \<longleftrightarrow>
     in_unit_range (smoothedLevel self) \<and> list_all in_unit_range (level_lines (trace self))"

text \<open>The \<^verbatim>\<open>out_time_us=\<close> lines are the elapsed microseconds of the emissions whose lines
  were written, and each comes with one \<^verbatim>\<open>total_size=\<close> and one \<^verbatim>\<open>level=\<close> line.\<close>

definition lines_ok :: "real \<Rightarrow> SystemAudioRecorder \<Rightarrow> bool" where
  "lines_ok date self \<longleftrightarrow>
     startedAt self = date \<and>
     out_time_lines (trace self)
       = map (\<lambda>e. nat \<lfloor>(fst e - date) * 1000000\<rfloor>) (written_emissions self) \<and>
     length (total_size_lines (trace self)) = length (out_time_lines (trace self)) \<and>
     length (level_lines (trace self)) = length (out_time_lines (trace self))"

subsection \<open>Inputs of the examples\<close>

text \<open>
  A buffer of two 16-bit samples, 8192 and -8192 (a quarter of full scale); a buffer without
  format description; a writer that accepts everything and one whose \<^verbatim>\<open>canAdd\<close> fails; the
  arrival at time \<open>t\<close> of the two-sample buffer, valid, while the writer accepts everything.
\<close>

definition int16_pcm :: AudioStreamBasicDescription where
  "int16_pcm = \<lparr>mFormatFlags = 12, mBitsPerChannel = 16\<rparr>"

definition two_quarter_samples :: CMSampleBuffer where
  "two_quarter_samples =
     \<lparr>formatDescription = Some (CMFormatDescription (Some int16_pcm)),
      audioBufferListStatus = 0,
      audioBufferList =
        [\<lparr>mNumberChannels = 1, mDataByteSize = 4,
          mData = Some (RawMemory (\<lambda>idx. Finite 0) (\<lambda>idx. if idx = 0 then 8192 else - 8192))\<rparr>]\<rparr>"

definition no_format :: CMSampleBuffer where
  "no_format = \<lparr>formatDescription = None, audioBufferListStatus = 0, audioBufferList = []\<rparr>"

definition writer_accepts :: WriterEnv where
  "writer_accepts =
     \<lparr>assetWriterError = None, canAdd = True, startWriting = True, writerError = None,
      isReadyForMoreMediaData = True, appendResult = True\<rparr>"

definition writer_rejects :: WriterEnv where
  "writer_rejects =
     \<lparr>assetWriterError = None, canAdd = False, startWriting = True, writerError = None,
      isReadyForMoreMediaData = True, appendResult = True\<rparr>"

definition audio_sample :: "real \<Rightarrow> Event" where
  "audio_sample t =
     SampleBuffer audio True two_quarter_samples writer_accepts \<lparr>now = t, fileSize = Some 44\<rparr>"

section \<open>Properties of latestByType\<close>

lemma set_insert_cmp: "set (insert_cmp cmp x ys) = insert x (set ys)"
  by (induction ys) auto

lemma set_sort_cmp: "set (sort_cmp cmp xs) = set xs"
  by (induction xs) (simp_all add: sort_cmp_def set_insert_cmp)

lemma sort_cmp_Nil_iff: "sort_cmp cmp xs = [] \<longleftrightarrow> xs = []"
  using set_sort_cmp [of cmp xs] by (metis set_empty)

lemma hd_insert_by_version:
  fixes x :: ArtifactRevision
  assumes "\<forall>y \<in> set ys. version y \<le> version (hd ys)"
  shows "\<forall>y \<in> set (insert_cmp (\<lambda>a b. version b - version a) x ys).
           version y \<le> version (hd (insert_cmp (\<lambda>a b. version b - version a) x ys))"
proof (cases ys)
  case Nil
  then show ?thesis by simp
next
  case (Cons y ys')
  with assms show ?thesis
    by (auto simp: set_insert_cmp)
qed

lemma hd_sort_by_version:
  fixes xs :: "ArtifactRevision list"
  shows "\<forall>y \<in> set (sort_cmp (\<lambda>a b. version b - version a) xs).
     version y \<le> version (hd (sort_cmp (\<lambda>a b. version b - version a) xs))"
proof (induction xs)
  case Nil
  show ?case by (simp add: sort_cmp_def)
next
  case (Cons x xs)
  have "sort_cmp (\<lambda>a b. version b - version a) (x # xs)
        = insert_cmp (\<lambda>a b. version b - version a) x (sort_cmp (\<lambda>a b. version b - version a) xs)"
    by (simp add: sort_cmp_def)
  with hd_insert_by_version [OF Cons.IH] show ?case by simp
qed

text \<open>
  Claim C10. For every list of artifact revisions and every artifact type \<open>t\<close>,
  \<open>latestByType\<close> returns \<^verbatim>\<open>undefined\<close> exactly when the list holds no revision of type
  \<open>t\<close>; otherwise it returns a revision of the list whose \<open>artifact_type\<close> is \<open>t\<close> and whose
  version is maximal among the revisions of type \<open>t\<close> in the list.
\<close>

theorem latestByType_max:
  "(latestByType revisions t = None \<longleftrightarrow> (\<forall>r \<in> set revisions. artifact_type r \<noteq> t)) \<and>
   (\<forall>r. latestByType revisions t = Some r \<longrightarrow>
      r \<in> set revisions \<and> artifact_type r = t \<and>
      (\<forall>r' \<in> set revisions. artifact_type r' = t \<longrightarrow> version r' \<le> version r))"
proof -
  let ?cmp = "\<lambda>a b :: ArtifactRevision. version b - version a"
  let ?fs = "filter (\<lambda>item. artifact_type item = t) revisions"
  let ?s = "sort_cmp ?cmp ?fs"
  have none: "latestByType revisions t = None \<longleftrightarrow> ?fs = []"
    using sort_cmp_Nil_iff [of ?cmp ?fs]
    by (cases ?s) (simp_all add: latestByType_def)
  have empty: "?fs = [] \<longleftrightarrow> (\<forall>r \<in> set revisions. artifact_type r \<noteq> t)"
    by (simp add: filter_empty_conv)
  have some: "r \<in> set revisions \<and> artifact_type r = t \<and>
      (\<forall>r' \<in> set revisions. artifact_type r' = t \<longrightarrow> version r' \<le> version r)"
    if "latestByType revisions t = Some r" for r
  proof -
    from that obtain rest where s: "?s = r # rest"
      by (auto simp: latestByType_def split: list.splits)
    then have "r \<in> set ?s" by simp
    then have mem: "r \<in> set ?fs" by (simp only: set_sort_cmp)
    have "\<forall>y \<in> set ?s. version y \<le> version (hd ?s)"
      by (rule hd_sort_by_version)
    then have "\<forall>y \<in> set ?fs. version y \<le> version (hd ?s)"
      unfolding set_sort_cmp .
    then have "\<forall>y \<in> set ?fs. version y \<le> version r"
      using s by simp
    with mem show ?thesis by auto
  qed
  from none empty some show ?thesis by blast
qed

theorem latestByType_max_witness:
  "latestByType
     [\<lparr>artifact_id = ''a1'', entry_id = ''e'', artifact_type = summary, version = 1,
        artifact_text = ''old'', source_transcript_version = 1, is_stale = True,
        is_manual_edit = False, created_at = ''t1''\<rparr>,
      \<lparr>artifact_id = ''b1'', entry_id = ''e'', artifact_type = analysis, version = 5,
        artifact_text = ''other'', source_transcript_version = 1, is_stale = True,
        is_manual_edit = False, created_at = ''t2''\<rparr>,
      \<lparr>artifact_id = ''a2'', entry_id = ''e'', artifact_type = summary, version = 2,
        artifact_text = ''new'', source_transcript_version = 2, is_stale = False,
        is_manual_edit = False, created_at = ''t3''\<rparr>] summary
   = Some \<lparr>artifact_id = ''a2'', entry_id = ''e'', artifact_type = summary, version = 2,
        artifact_text = ''new'', source_transcript_version = 2, is_stale = False,
        is_manual_edit = False, created_at = ''t3''\<rparr>
   \<and> latestByType [] critique_cs = None"
proof -
  let ?revs = "[\<lparr>artifact_id = ''a1'', entry_id = ''e'', artifact_type = summary, version = 1,
        artifact_text = ''old'', source_transcript_version = 1, is_stale = True,
        is_manual_edit = False, created_at = ''t1''\<rparr>,
      \<lparr>artifact_id = ''b1'', entry_id = ''e'', artifact_type = analysis, version = 5,
        artifact_text = ''other'', source_transcript_version = 1, is_stale = True,
        is_manual_edit = False, created_at = ''t2''\<rparr>,
      \<lparr>artifact_id = ''a2'', entry_id = ''e'', artifact_type = summary, version = 2,
        artifact_text = ''new'', source_transcript_version = 2, is_stale = False,
        is_manual_edit = False, created_at = ''t3''\<rparr>]"
  have "latestByType [] critique_cs = None"
    using latestByType_max [of "[]" critique_cs] by simp
  moreover have "latestByType ?revs summary = Some (?revs ! 2)"
    by (simp add: latestByType_def sort_cmp_def)
  ultimately show ?thesis by simp
qed

section \<open>Properties of the revision store\<close>

lemma foldr_max_base: "(0::int) \<le> b \<Longrightarrow> foldr max vs b = max (foldr max vs 0) b"
  by (induction vs) auto

lemma foldr_max_snoc: "(0::int) \<le> x \<Longrightarrow> foldr max (vs @ [x]) 0 = max (foldr max vs 0) x"
  using foldr_max_base [of x vs] by simp

lemma foldr_max_nonneg: "(0::int) \<le> foldr max vs 0"
  by (induction vs) auto

lemma current_transcript_version_nonneg: "0 \<le> current_transcript_version st e"
  by (simp add: current_transcript_version_def foldr_max_nonneg)

lemma foldr_max_upto: "foldr max [1..int n] 0 = int n"
proof (induction n)
  case 0
  show ?case by simp
next
  case (Suc n)
  have "[1..int (Suc n)] = [1..int n] @ [int n + 1]"
    using upto_rec2 [of 1 "int (Suc n)"] by (simp add: add.commute)
  moreover have "foldr max ([1..int n] @ [int n + 1]) 0 = max (foldr max [1..int n] 0) (int n + 1)"
    by (rule foldr_max_snoc) simp
  ultimately show ?case using Suc by simp
qed

lemma gap_free_max: "gap_free vs \<Longrightarrow> foldr max vs 0 = int (length vs)"
  unfolding gap_free_def using foldr_max_upto [of "length vs"] by simp

lemma gap_free_snoc: "gap_free vs \<Longrightarrow> gap_free (vs @ [foldr max vs 0 + 1])"
proof -
  assume g: "gap_free vs"
  have "[1..int (Suc (length vs))] = [1..int (length vs)] @ [int (length vs) + 1]"
    using upto_rec2 [of 1 "int (Suc (length vs))"] by (simp add: add.commute)
  with g gap_free_max [OF g] show ?thesis
    by (simp add: gap_free_def add.commute)
qed

lemma refresh_stale_fields [simp]:
  "entry_id (refresh_stale e v a) = entry_id a"
  "artifact_type (refresh_stale e v a) = artifact_type a"
  "version (refresh_stale e v a) = version a"
  "source_transcript_version (refresh_stale e v a) = source_transcript_version a"
  by (simp_all add: refresh_stale_def)

lemma filter_map_refresh:
  "filter (\<lambda>a. P (entry_id a) (artifact_type a)) (map (refresh_stale e v) xs)
   = map (refresh_stale e v) (filter (\<lambda>a. P (entry_id a) (artifact_type a)) xs)"
  by (induction xs) simp_all

lemma transcripts_of_create_transcript:
  "transcripts_of (create_transcript_revision e txt lang manual rid created st) e'
   = (if e' = e
      then transcripts_of st e @
        [\<lparr>transcript_id = rid, transcript_entry_id = e,
          transcript_version = current_transcript_version st e + 1,
          transcript_text = txt, language = lang, transcript_is_manual_edit = manual,
          transcript_created_at = created\<rparr>]
      else transcripts_of st e')"
  by (simp add: transcripts_of_def create_transcript_revision_def Let_def)

lemma artifacts_of_create_transcript:
  "artifacts_of (create_transcript_revision e txt lang manual rid created st) e' t
   = map (refresh_stale e (current_transcript_version st e + 1)) (artifacts_of st e' t)"
  using filter_map_refresh [of "\<lambda>x y. x = e' \<and> y = t"]
  by (simp add: artifacts_of_def create_transcript_revision_def Let_def)

lemma transcripts_of_create_artifact:
  "transcripts_of (create_artifact_revision e t txt manual rid created st) e' = transcripts_of st e'"
  by (simp add: transcripts_of_def create_artifact_revision_def Let_def)

lemma artifacts_of_create_artifact:
  "artifacts_of (create_artifact_revision e t txt manual rid created st) e' t'
   = (if e' = e \<and> t' = t
      then artifacts_of st e t @
        [\<lparr>artifact_id = rid, entry_id = e, artifact_type = t,
          version = current_artifact_version st e t + 1, artifact_text = txt,
          source_transcript_version = current_transcript_version st e,
          is_stale = False, is_manual_edit = manual, created_at = created\<rparr>]
      else artifacts_of st e' t')"
  by (auto simp: artifacts_of_def create_artifact_revision_def Let_def)

lemma transcripts_of_purge:
  "transcripts_of (purge_entry e st) e' = (if e' = e then [] else transcripts_of st e')"
  by (auto simp: transcripts_of_def purge_entry_def intro: filter_cong)

lemma artifacts_of_purge:
  "artifacts_of (purge_entry e st) e' t = (if e' = e then [] else artifacts_of st e' t)"
  by (auto simp: artifacts_of_def purge_entry_def intro: filter_cong)

lemma current_version_create_transcript:
  "current_transcript_version (create_transcript_revision e txt lang manual rid created st) e'
   = (if e' = e then current_transcript_version st e + 1 else current_transcript_version st e')"
proof -
  have "foldr max (map transcript_version (transcripts_of st e) @ [current_transcript_version st e + 1]) 0
        = max (foldr max (map transcript_version (transcripts_of st e)) 0)
              (current_transcript_version st e + 1)"
    by (rule foldr_max_snoc) (use current_transcript_version_nonneg [of st e] in simp)
  then show ?thesis
    unfolding current_transcript_version_def transcripts_of_create_transcript
    by (simp del: foldr_append)
qed

lemma gap_free_Nil: "gap_free []"
  by (simp add: gap_free_def)

lemma versions_gap_free_create_transcript:
  assumes "versions_gap_free st"
  shows "versions_gap_free (create_transcript_revision e txt lang manual rid created st)"
proof -
  have "gap_free (map transcript_version (transcripts_of st e)
          @ [foldr max (map transcript_version (transcripts_of st e)) 0 + 1])"
    using assms by (intro gap_free_snoc) (simp add: versions_gap_free_def)
  with assms show ?thesis
    by (simp add: versions_gap_free_def transcripts_of_create_transcript
        artifacts_of_create_transcript current_transcript_version_def comp_def)
qed

lemma versions_gap_free_create_artifact:
  assumes "versions_gap_free st"
  shows "versions_gap_free (create_artifact_revision e t txt manual rid created st)"
proof -
  have "gap_free (map version (artifacts_of st e t)
          @ [foldr max (map version (artifacts_of st e t)) 0 + 1])"
    using assms by (intro gap_free_snoc) (simp add: versions_gap_free_def)
  with assms show ?thesis
    by (simp add: versions_gap_free_def transcripts_of_create_artifact
        artifacts_of_create_artifact current_artifact_version_def)
qed

lemma versions_gap_free_purge:
  "versions_gap_free st \<Longrightarrow> versions_gap_free (purge_entry e st)"
  by (simp add: versions_gap_free_def transcripts_of_purge artifacts_of_purge gap_free_Nil)

lemma versions_gap_free_apply_op:
  "versions_gap_free st \<Longrightarrow> apply_op x st = Inr st' \<Longrightarrow> versions_gap_free st'"
  by (cases x)
    (auto simp: versions_gap_free_create_transcript versions_gap_free_create_artifact
      versions_gap_free_purge split: sum.splits if_splits)

lemma versions_gap_free_run_ops:
  "versions_gap_free st \<Longrightarrow> versions_gap_free (run_ops xs st)"
proof (induction xs arbitrary: st)
  case Nil
  then show ?case by simp
next
  case (Cons x xs)
  then show ?case
    by (cases "apply_op x st") (auto dest: versions_gap_free_apply_op)
qed

lemma versions_gap_free_empty: "versions_gap_free empty_store"
  by (simp add: versions_gap_free_def transcripts_of_def artifacts_of_def empty_store_def gap_free_Nil)

lemma stale_consistent_create_transcript:
  assumes "stale_consistent st"
  shows "stale_consistent (create_transcript_revision e txt lang manual rid created st)"
proof -
  let ?st' = "create_transcript_revision e txt lang manual rid created st"
  let ?v = "current_transcript_version st e + 1"
  have arts: "stored_artifacts ?st' = map (refresh_stale e ?v) (stored_artifacts st)"
    by (simp add: create_transcript_revision_def Let_def)
  have "is_stale (refresh_stale e ?v a)
        = (source_transcript_version (refresh_stale e ?v a)
            < current_transcript_version ?st' (entry_id (refresh_stale e ?v a)))"
    if "a \<in> set (stored_artifacts st)" for a
  proof (cases "entry_id a = e")
    case True
    then show ?thesis
      by (simp add: current_version_create_transcript) (simp add: refresh_stale_def)
  next
    case False
    moreover from assms that
    have "is_stale a = (source_transcript_version a < current_transcript_version st (entry_id a))"
      by (simp add: stale_consistent_def list_all_iff)
    ultimately show ?thesis
      by (simp add: current_version_create_transcript) (simp add: refresh_stale_def)
  qed
  then show ?thesis
    unfolding stale_consistent_def arts list_all_iff by simp
qed

lemma current_version_create_artifact:
  "current_transcript_version (create_artifact_revision e t txt manual rid created st) e'
   = current_transcript_version st e'"
  by (simp add: current_transcript_version_def transcripts_of_create_artifact)

lemma stale_consistent_create_artifact:
  assumes "stale_consistent st"
  shows "stale_consistent (create_artifact_revision e t txt manual rid created st)"
proof -
  let ?st' = "create_artifact_revision e t txt manual rid created st"
  have "stored_artifacts ?st' = stored_artifacts st @
        [\<lparr>artifact_id = rid, entry_id = e, artifact_type = t,
          version = current_artifact_version st e t + 1, artifact_text = txt,
          source_transcript_version = current_transcript_version st e,
          is_stale = False, is_manual_edit = manual, created_at = created\<rparr>]"
    by (simp add: create_artifact_revision_def Let_def)
  with assms show ?thesis
    by (simp add: stale_consistent_def current_version_create_artifact)
qed

lemma current_version_purge:
  "e' \<noteq> e \<Longrightarrow> current_transcript_version (purge_entry e st) e' = current_transcript_version st e'"
  by (simp add: current_transcript_version_def transcripts_of_purge)

lemma stale_consistent_purge:
  assumes "stale_consistent st"
  shows "stale_consistent (purge_entry e st)"
proof -
  have "stored_artifacts (purge_entry e st) = filter (\<lambda>a. entry_id a \<noteq> e) (stored_artifacts st)"
    by (simp add: purge_entry_def)
  with assms show ?thesis
    by (auto simp: stale_consistent_def list_all_iff current_version_purge)
qed

lemma stale_consistent_apply_op:
  "stale_consistent st \<Longrightarrow> apply_op x st = Inr st' \<Longrightarrow> stale_consistent st'"
  by (cases x)
    (auto simp: stale_consistent_create_transcript stale_consistent_create_artifact
      stale_consistent_purge split: sum.splits if_splits)

lemma stale_consistent_run_ops:
  "stale_consistent st \<Longrightarrow> stale_consistent (run_ops xs st)"
proof (induction xs arbitrary: st)
  case Nil
  then show ?case by simp
next
  case (Cons x xs)
  then show ?case
    by (cases "apply_op x st") (auto dest: stale_consistent_apply_op)
qed

lemma stale_consistent_empty: "stale_consistent empty_store"
  by (simp add: stale_consistent_def empty_store_def)

lemma refresh_stale_flag:
  "entry_id a = e \<Longrightarrow> is_stale (refresh_stale e v a) = (source_transcript_version a < v)"
  by (simp add: refresh_stale_def)

text \<open>
  Claim C1 (on the store modelled from the spec). In every store reached by a history of
  requests, each artifact revision is flagged stale exactly when the current (maximum)
  transcript version of its entry is greater than its source transcript version. The flags
  are recomputed and stored by the creation of a transcript revision itself: it raises the
  current version of the entry to \<open>v = priorMax + 1\<close>, keeps every artifact revision, and
  afterwards every artifact revision of the entry with source version below \<open>v\<close> is stale and
  every one with source version \<open>v\<close> is not.
\<close>

theorem staleness_recomputed_on_new_transcript:
  "stale_consistent (run_ops ops empty_store) \<and>
   (let st' = create_transcript_revision e txt lang manual rid created st;
        v = current_transcript_version st' e
    in v = current_transcript_version st e + 1 \<and>
       length (stored_artifacts st') = length (stored_artifacts st) \<and>
       (\<forall>a \<in> set (stored_artifacts st'). entry_id a = e \<longrightarrow>
          (source_transcript_version a < v \<longrightarrow> is_stale a) \<and>
          (source_transcript_version a = v \<longrightarrow> \<not> is_stale a)))"
proof -
  let ?v = "current_transcript_version st e + 1"
  let ?st' = "create_transcript_revision e txt lang manual rid created st"
  have inv: "stale_consistent (run_ops ops empty_store)"
    by (rule stale_consistent_run_ops) (rule stale_consistent_empty)
  have arts: "stored_artifacts ?st' = map (refresh_stale e ?v) (stored_artifacts st)"
    by (simp add: create_transcript_revision_def Let_def)
  have v: "current_transcript_version ?st' e = ?v"
    by (simp add: current_version_create_transcript)
  have flags: "(source_transcript_version a < ?v \<longrightarrow> is_stale a) \<and>
          (source_transcript_version a = ?v \<longrightarrow> \<not> is_stale a)"
    if "a \<in> set (stored_artifacts ?st')" and "entry_id a = e" for a
  proof -
    from that(1) obtain b where b: "b \<in> set (stored_artifacts st)" "a = refresh_stale e ?v b"
      unfolding arts by auto
    with that(2) have "entry_id b = e" by simp
    then have "is_stale a = (source_transcript_version a < ?v)"
      using b(2) by (simp add: refresh_stale_flag)
    then show ?thesis by simp
  qed
  have len: "length (stored_artifacts ?st') = length (stored_artifacts st)"
    unfolding arts by simp
  from inv v len flags show ?thesis
    unfolding Let_def by (metis (no_types, lifting))
qed

theorem staleness_recomputed_on_new_transcript_witness:
  "map (\<lambda>a. (version a, source_transcript_version a, is_stale a))
     (stored_artifacts (run_ops
        [Transcribe ''e1'' (Inr ''hello'') ''en'' ''t1'' ''10:00'',
         Generate ''e1'' summary (Inr ''greeting'') ''a1'' ''10:01'',
         UpdateTranscript ''e1'' ''hello there'' ''en'' ''t2'' ''10:02'',
         Generate ''e1'' summary (Inr ''longer greeting'') ''a2'' ''10:03''] empty_store))
   = [(1, 1, True), (2, 2, False)]
   \<and> stale_consistent (run_ops
        [Transcribe ''e1'' (Inr ''hello'') ''en'' ''t1'' ''10:00'',
         Generate ''e1'' summary (Inr ''greeting'') ''a1'' ''10:01'',
         UpdateTranscript ''e1'' ''hello there'' ''en'' ''t2'' ''10:02'',
         Generate ''e1'' summary (Inr ''longer greeting'') ''a2'' ''10:03''] empty_store)"
proof (rule conjI)
  show "map (\<lambda>a. (version a, source_transcript_version a, is_stale a))
     (stored_artifacts (run_ops
        [Transcribe ''e1'' (Inr ''hello'') ''en'' ''t1'' ''10:00'',
         Generate ''e1'' summary (Inr ''greeting'') ''a1'' ''10:01'',
         UpdateTranscript ''e1'' ''hello there'' ''en'' ''t2'' ''10:02'',
         Generate ''e1'' summary (Inr ''longer greeting'') ''a2'' ''10:03''] empty_store))
   = [(1, 1, True), (2, 2, False)]"
    by code_simp
  show "stale_consistent (run_ops
        [Transcribe ''e1'' (Inr ''hello'') ''en'' ''t1'' ''10:00'',
         Generate ''e1'' summary (Inr ''greeting'') ''a1'' ''10:01'',
         UpdateTranscript ''e1'' ''hello there'' ''en'' ''t2'' ''10:02'',
         Generate ''e1'' summary (Inr ''longer greeting'') ''a2'' ''10:03''] empty_store)"
    by (rule staleness_recomputed_on_new_transcript [THEN conjunct1])
qed

text \<open>
  Claim C2 (on the store modelled from the spec). In every store reached by a history of
  requests, the transcript versions of each entry, and the artifact versions of each
  \<open>(entryId, artifactType)\<close> pair, read in creation order, are \<open>1, 2, ..., n\<close>: strictly
  increasing from 1, without gap or duplicate. Every creation, by an orchestrator or by a
  manual edit, assigns the prior maximum plus one.
\<close>

theorem revision_versions_gap_free:
  "gap_free (map transcript_version (transcripts_of (run_ops ops empty_store) e)) \<and>
   gap_free (map version (artifacts_of (run_ops ops empty_store) e t)) \<and>
   transcript_version (last (stored_transcripts
       (create_transcript_revision e txt lang manual rid created st)))
     = current_transcript_version st e + 1 \<and>
   version (last (stored_artifacts (create_artifact_revision e t txt manual rid created st)))
     = current_artifact_version st e t + 1"
proof -
  have "versions_gap_free (run_ops ops empty_store)"
    by (rule versions_gap_free_run_ops) (rule versions_gap_free_empty)
  then show ?thesis
    by (simp add: versions_gap_free_def create_transcript_revision_def
        create_artifact_revision_def Let_def)
qed

theorem revision_versions_gap_free_witness:
  "gap_free (map transcript_version (transcripts_of (run_ops
      [Transcribe ''e1'' (Inr ''hello'') ''en'' ''t1'' ''10:00'',
       Transcribe ''e1'' (Inl ''whisper failed'') ''en'' ''t2'' ''10:01'',
       UpdateTranscript ''e1'' ''hello there'' ''en'' ''t3'' ''10:02'',
       Transcribe ''e2'' (Inr ''other'') ''en'' ''t4'' ''10:03''] empty_store) ''e1'')) \<and>
   map transcript_version (transcripts_of (run_ops
      [Transcribe ''e1'' (Inr ''hello'') ''en'' ''t1'' ''10:00'',
       Transcribe ''e1'' (Inl ''whisper failed'') ''en'' ''t2'' ''10:01'',
       UpdateTranscript ''e1'' ''hello there'' ''en'' ''t3'' ''10:02'',
       Transcribe ''e2'' (Inr ''other'') ''en'' ''t4'' ''10:03''] empty_store) ''e1'') = [1, 2]"
proof (rule conjI)
  show "gap_free (map transcript_version (transcripts_of (run_ops
      [Transcribe ''e1'' (Inr ''hello'') ''en'' ''t1'' ''10:00'',
       Transcribe ''e1'' (Inl ''whisper failed'') ''en'' ''t2'' ''10:01'',
       UpdateTranscript ''e1'' ''hello there'' ''en'' ''t3'' ''10:02'',
       Transcribe ''e2'' (Inr ''other'') ''en'' ''t4'' ''10:03''] empty_store) ''e1''))"
    by (rule revision_versions_gap_free [THEN conjunct1])
  show "map transcript_version (transcripts_of (run_ops
      [Transcribe ''e1'' (Inr ''hello'') ''en'' ''t1'' ''10:00'',
       Transcribe ''e1'' (Inl ''whisper failed'') ''en'' ''t2'' ''10:01'',
       UpdateTranscript ''e1'' ''hello there'' ''en'' ''t3'' ''10:02'',
       Transcribe ''e2'' (Inr ''other'') ''en'' ''t4'' ''10:03''] empty_store) ''e1'') = [1, 2]"
    by code_simp
qed

section \<open>Properties of the level computation\<close>

lemma not_negative_square: "not_negative (fmul x x)"
  by (cases x) (simp_all add: infinity_of_def)

lemma not_negative_fadd: "not_negative x \<Longrightarrow> not_negative y \<Longrightarrow> not_negative (fadd x y)"
  by (cases x; cases y) simp_all

lemma not_negative_fdiv: "not_negative x \<Longrightarrow> 0 < n \<Longrightarrow> not_negative (fdiv x (Finite n))"
  by (cases x) (simp_all add: infinity_of_def)

lemma not_negative_fsqrt: "not_negative x \<Longrightarrow> not_negative (fsqrt x)"
  by (cases x) simp_all

lemma not_negative_gain: "not_negative x \<Longrightarrow> 0 < g \<Longrightarrow> not_negative (fmul x (Finite g))"
  by (cases x) (simp_all add: infinity_of_def)

lemma in_unit_range_swift_min: "not_negative x \<Longrightarrow> in_unit_range (swift_min (Finite 1) x)"
  by (cases x) (simp_all add: swift_min_def)

lemma not_negative_foldl:
  "not_negative accum \<Longrightarrow>
   not_negative (foldl (\<lambda>accum sample. fadd accum (fmul sample sample)) accum samples)"
  by (induction samples arbitrary: accum) (simp_all add: not_negative_fadd not_negative_square)

lemma not_negative_sum_of_squares: "not_negative (sum_of_squares samples)"
  by (simp add: sum_of_squares_def not_negative_foldl)

lemma in_unit_range_spec_rms_level: "in_unit_range (spec_rms_level samples)"
proof (cases "samples = []")
  case True
  then show ?thesis by (simp add: spec_rms_level_def)
next
  case False
  then have "0 < real (length samples)" by simp
  then have "not_negative (fdiv (sum_of_squares samples) (Finite (real (length samples))))"
    by (intro not_negative_fdiv not_negative_sum_of_squares)
  then have "not_negative (fmul (fsqrt (fdiv (sum_of_squares samples) (Finite (real (length samples)))))
               (Finite 2.8))"
    by (intro not_negative_gain not_negative_fsqrt) simp_all
  with False show ?thesis
    by (simp add: spec_rms_level_def in_unit_range_swift_min)
qed

lemma accumulate_float_foldl:
  "accumulate_float data count accum
   = foldl (\<lambda>accum sample. fadd accum (fmul sample sample)) accum (map (floatAt data) [0..<count])"
  by (simp add: accumulate_float_def foldl_conv_fold fold_map comp_def Let_def)

lemma accumulate_int16_foldl:
  "accumulate_int16 data count accum
   = foldl (\<lambda>accum sample. fadd accum (fmul sample sample)) accum
       (map (\<lambda>idx. fdiv (Finite (real_of_int (sint (int16At data idx)))) (Finite 32768)) [0..<count])"
  by (simp add: accumulate_int16_def foldl_conv_fold fold_map comp_def Let_def)

lemma accumulate_buffer_samples:
  "accumulate_buffer (mFormatFlags asbd AND kAudioFormatFlagIsFloat \<noteq> 0)
     (mFormatFlags asbd AND kAudioFormatFlagIsSignedInteger \<noteq> 0)
     (unat (mBitsPerChannel asbd)) buffer (accum, sampleCount)
   = (foldl (\<lambda>accum sample. fadd accum (fmul sample sample)) accum (buffer_samples asbd buffer),
      sampleCount + length (buffer_samples asbd buffer))"
  by (simp add: accumulate_buffer_def buffer_samples_def accumulate_float_foldl
      accumulate_int16_foldl Let_def split: option.splits)

lemma fold_accumulate_buffer:
  "fold (accumulate_buffer (mFormatFlags asbd AND kAudioFormatFlagIsFloat \<noteq> 0)
     (mFormatFlags asbd AND kAudioFormatFlagIsSignedInteger \<noteq> 0)
     (unat (mBitsPerChannel asbd))) buffers (accum, sampleCount)
   = (foldl (\<lambda>accum sample. fadd accum (fmul sample sample)) accum (interpreted_samples asbd buffers),
      sampleCount + length (interpreted_samples asbd buffers))"
proof (induction buffers arbitrary: accum sampleCount)
  case Nil
  show ?case by (simp add: interpreted_samples_def)
next
  case (Cons buffer buffers)
  show ?case
    using Cons.IH by (simp add: accumulate_buffer_samples interpreted_samples_def)
qed

lemma computeRmsLevel_eq:
  "computeRmsLevel sampleBuffer =
     (case formatDescription sampleBuffer of
        None \<Rightarrow> Finite 0
      | Some description \<Rightarrow>
         (case streamBasicDescription description of
            None \<Rightarrow> Finite 0
          | Some asbd \<Rightarrow>
              if audioBufferListStatus sampleBuffer \<noteq> noErr then Finite 0
              else spec_rms_level (interpreted_samples asbd (audioBufferList sampleBuffer))))"
  by (simp add: computeRmsLevel_def fold_accumulate_buffer spec_rms_level_def sum_of_squares_def
      Let_def split: option.splits)

lemma in_unit_range_computeRmsLevel: "in_unit_range (computeRmsLevel sampleBuffer)"
  by (simp add: computeRmsLevel_eq in_unit_range_spec_rms_level split: option.splits)

lemma length_buffer_samples: "length (buffer_samples asbd buffer) < 2147483648"
proof -
  have "unat (mDataByteSize buffer) < 4294967296"
    using unsigned_less [of "mDataByteSize buffer", where ?'a = nat] by simp
  then have "unat (mDataByteSize buffer) div 4 < 2147483648"
    "unat (mDataByteSize buffer) div 2 < 2147483648"
    by simp_all
  then show ?thesis
    by (simp add: buffer_samples_def split: option.splits)
qed

lemma length_interpreted_samples:
  "length (interpreted_samples asbd buffers) \<le> length buffers * 2147483647"
proof (induction buffers)
  case Nil
  show ?case by (simp add: interpreted_samples_def)
next
  case (Cons buffer buffers)
  have "length (interpreted_samples asbd (buffer # buffers))
        = length (buffer_samples asbd buffer) + length (interpreted_samples asbd buffers)"
    by (simp add: interpreted_samples_def)
  with Cons length_buffer_samples [of asbd buffer] show ?case by simp
qed

lemma spec_smoothed_finite:
  "0 \<le> a \<Longrightarrow> a \<le> 1 \<Longrightarrow> 0 \<le> b \<Longrightarrow> b \<le> 1 \<Longrightarrow>
   spec_smoothed (Finite a) (Finite b) = Finite (a * 0.75 + b * 0.25)"
  by (simp add: spec_smoothed_def clamped_def swift_min_def swift_max_def)

lemma in_unit_range_spec_smoothed:
  "in_unit_range prior \<Longrightarrow> in_unit_range new \<Longrightarrow> in_unit_range (spec_smoothed prior new)"
  by (cases prior; cases new) (simp_all add: spec_smoothed_finite)

section \<open>Properties of the recorder\<close>

subsection \<open>The primitives, field by field\<close>

lemma requestStop_fields [simp]:
  "writer (requestStop s) = writer s"
  "writerInput (requestStop s) = writerInput s"
  "startedAt (requestStop s) = startedAt s"
  "lastTelemetry (requestStop s) = lastTelemetry s"
  "smoothedLevel (requestStop s) = smoothedLevel s"
  "hasReceivedAudioSample (requestStop s) = hasReceivedAudioSample s"
  "emittedNoSampleError (requestStop s) = emittedNoSampleError s"
  "trace (requestStop s) = trace s"
  "stopRequested (requestStop s) = True"
  by (simp_all add: requestStop_def)

lemma requestStop_run:
  "run (requestStop s) = run s \<or> run (requestStop s) = Resumed"
  by (simp add: requestStop_def split: option.splits)

lemma requestStop_active: "active s \<Longrightarrow> active (requestStop s)"
  by (auto simp: requestStop_def active_def split: option.splits)

lemma emitTelemetry_fields [simp]:
  "writer (emitTelemetry force env s) = writer s"
  "writerInput (emitTelemetry force env s) = writerInput s"
  "stopContinuation (emitTelemetry force env s) = stopContinuation s"
  "stopRequested (emitTelemetry force env s) = stopRequested s"
  "startedAt (emitTelemetry force env s) = startedAt s"
  "smoothedLevel (emitTelemetry force env s) = smoothedLevel s"
  "hasReceivedAudioSample (emitTelemetry force env s) = hasReceivedAudioSample s"
  "readabilityHandler (emitTelemetry force env s) = readabilityHandler s"
  by (simp_all add: emitTelemetry_def Let_def)

lemma emitTelemetry_run:
  "run (emitTelemetry force env s) = run s \<or> run (emitTelemetry force env s) = Trapped"
  by (simp add: emitTelemetry_def Let_def)

text \<open>The three blocks of the handler, field by field.\<close>

lemma initializeWriterIfNeeded_Inl:
  assumes "initializeWriterIfNeeded wenv s = Inl s'"
  shows "writer s = None"
    and "\<exists>error. s' = requestStop (s\<lparr>trace := trace s @
            [InitializeWriter (Some error), Stderr (SckError (InitializeWriterFailed error))]\<rparr>)"
  using assms
  by (auto simp: initializeWriterIfNeeded_def split: if_splits sum.splits)

lemma initializeWriterIfNeeded_Inr:
  assumes "initializeWriterIfNeeded wenv s = Inr s'"
  shows "(writer s \<noteq> None \<and> s' = s) \<or>
         (writer s = None \<and>
          s' = s\<lparr>writer := Some AVAssetWriter, writerInput := Some AVAssetWriterInput,
                  trace := trace s @ [InitializeWriter None]\<rparr>)"
  using assms
  by (auto simp: initializeWriterIfNeeded_def initializeWriter_def
      split: if_splits sum.splits option.splits)

lemma appendSampleBuffer_Inl:
  assumes "appendSampleBuffer wenv s = Inl s'"
  shows "s' = s \<or>
         s' = requestStop (s\<lparr>trace := trace s @
                [Append False, Stderr (SckError (AppendFailed (writerError wenv)))]\<rparr>)"
  using assms
  by (auto simp: appendSampleBuffer_def Let_def split: if_splits option.splits)

lemma appendSampleBuffer_Inr:
  assumes "appendSampleBuffer wenv s = Inr s'"
  shows "s' = s \<or> s' = s\<lparr>trace := trace s @ [Append True]\<rparr>"
  using assms
  by (auto simp: appendSampleBuffer_def Let_def split: if_splits option.splits)

lemma updateLevel_eq:
  "updateLevel sampleBuffer tenv s
   = emitTelemetry False tenv
       (s\<lparr>smoothedLevel := spec_smoothed (smoothedLevel s) (computeRmsLevel sampleBuffer)\<rparr>)"
  by (simp add: updateLevel_def spec_smoothed_def Let_def)

subsection \<open>An induction rule for runs\<close>

lemma active_trace_update [simp]: "active (s\<lparr>trace := t\<rparr>) = active s"
  by (simp add: active_def)

lemma active_received_update [simp]: "active (s\<lparr>hasReceivedAudioSample := b\<rparr>) = active s"
  by (simp add: active_def)

lemma active_smoothed_update [simp]: "active (s\<lparr>smoothedLevel := x\<rparr>) = active s"
  by (simp add: active_def)

lemma active_writer_update [simp]:
  "active (s\<lparr>writer := w\<rparr>) = active s" "active (s\<lparr>writerInput := i\<rparr>) = active s"
  by (simp_all add: active_def)

lemma control_ok_requestStop: "control_ok s \<Longrightarrow> active s \<Longrightarrow> control_ok (requestStop s)"
  by (auto simp: control_ok_def requestStop_def active_def split: option.splits)

lemma control_ok_emitTelemetry: "control_ok s \<Longrightarrow> control_ok (emitTelemetry force env s)"
  using emitTelemetry_run [of force env s]
  by (auto simp: control_ok_def)

lemma control_ok_updates [simp]:
  "control_ok (s\<lparr>trace := t\<rparr>) = control_ok s"
  "control_ok (s\<lparr>hasReceivedAudioSample := b\<rparr>) = control_ok s"
  "control_ok (s\<lparr>smoothedLevel := x\<rparr>) = control_ok s"
  "control_ok (s\<lparr>writer := w\<rparr>) = control_ok s"
  "control_ok (s\<lparr>writerInput := i\<rparr>) = control_ok s"
  by (simp_all add: control_ok_def)

lemma stream_invariant [consumes 2, case_names received initFailed initialized appendFailed appended level]:
  assumes "P s" "active s"
    and received: "\<And>s. P s \<Longrightarrow> active s \<Longrightarrow> P (s\<lparr>hasReceivedAudioSample := True\<rparr>)"
    and initFailed: "\<And>s error. P s \<Longrightarrow> active s \<Longrightarrow> hasReceivedAudioSample s \<Longrightarrow> writer s = None \<Longrightarrow>
        P (requestStop (s\<lparr>trace := trace s @
             [InitializeWriter (Some error), Stderr (SckError (InitializeWriterFailed error))]\<rparr>))"
    and initialized: "\<And>s. P s \<Longrightarrow> active s \<Longrightarrow> hasReceivedAudioSample s \<Longrightarrow> writer s = None \<Longrightarrow>
        P (s\<lparr>writer := Some AVAssetWriter, writerInput := Some AVAssetWriterInput,
              trace := trace s @ [InitializeWriter None]\<rparr>)"
    and appendFailed: "\<And>s details. P s \<Longrightarrow> active s \<Longrightarrow> hasReceivedAudioSample s \<Longrightarrow>
        P (requestStop (s\<lparr>trace := trace s @
             [Append False, Stderr (SckError (AppendFailed details))]\<rparr>))"
    and appended: "\<And>s. P s \<Longrightarrow> active s \<Longrightarrow> hasReceivedAudioSample s \<Longrightarrow>
        P (s\<lparr>trace := trace s @ [Append True]\<rparr>)"
    and level: "\<And>s. P s \<Longrightarrow> active s \<Longrightarrow> hasReceivedAudioSample s \<Longrightarrow>
        P (emitTelemetry False tenv
             (s\<lparr>smoothedLevel := spec_smoothed (smoothedLevel s) (computeRmsLevel sampleBuffer)\<rparr>))"
  shows "P (stream outputType isValid sampleBuffer wenv tenv s)"
proof (cases "outputType = audio \<and> isValid")
  case False
  with assms(1) show ?thesis by (auto simp: stream_def)
next
  case True
  let ?s0 = "s\<lparr>hasReceivedAudioSample := True\<rparr>"
  have s0: "P ?s0" "active ?s0" "hasReceivedAudioSample ?s0"
    using assms(1,2) received by simp_all
  show ?thesis
  proof (cases "initializeWriterIfNeeded wenv ?s0")
    case (Inl returned)
    from initializeWriterIfNeeded_Inl [OF Inl] obtain error where
      "writer ?s0 = None"
      "returned = requestStop (?s0\<lparr>trace := trace ?s0 @
          [InitializeWriter (Some error), Stderr (SckError (InitializeWriterFailed error))]\<rparr>)"
      by blast
    with initFailed [OF s0] have "P returned" by simp
    with True Inl show ?thesis by (simp add: stream_def)
  next
    case (Inr s1)
    have s1: "P s1 \<and> active s1 \<and> hasReceivedAudioSample s1"
      using initializeWriterIfNeeded_Inr [OF Inr]
    proof
      assume "writer ?s0 \<noteq> None \<and> s1 = ?s0"
      with s0 show ?thesis by simp
    next
      assume a: "writer ?s0 = None \<and>
          s1 = ?s0\<lparr>writer := Some AVAssetWriter, writerInput := Some AVAssetWriterInput,
                  trace := trace ?s0 @ [InitializeWriter None]\<rparr>"
      then have "P s1" using initialized [OF s0] by simp
      with a s0 show ?thesis by simp
    qed
    show ?thesis
    proof (cases "appendSampleBuffer wenv s1")
      case (Inl returned)
      from appendSampleBuffer_Inl [OF Inl] s1 appendFailed [of s1 "writerError wenv"]
      have "P returned" by auto
      with True Inr Inl show ?thesis by (simp add: stream_def)
    next
      case inr2: (Inr s2)
      from appendSampleBuffer_Inr [OF inr2] s1 appended [of s1]
      have "P s2 \<and> active s2 \<and> hasReceivedAudioSample s2" by auto
      then have "P (updateLevel sampleBuffer tenv s2)"
        using level [of s2] by (simp add: updateLevel_eq)
      with True Inr inr2 show ?thesis by (simp add: stream_def)
    qed
  qed
qed

lemma step_invariant [consumes 1, case_names received initFailed initialized appendFailed appended level stop finish]:
  assumes "P s"
    and received: "\<And>s. P s \<Longrightarrow> active s \<Longrightarrow> P (s\<lparr>hasReceivedAudioSample := True\<rparr>)"
    and initFailed: "\<And>s error. P s \<Longrightarrow> active s \<Longrightarrow> hasReceivedAudioSample s \<Longrightarrow> writer s = None \<Longrightarrow>
        P (requestStop (s\<lparr>trace := trace s @
             [InitializeWriter (Some error), Stderr (SckError (InitializeWriterFailed error))]\<rparr>))"
    and initialized: "\<And>s. P s \<Longrightarrow> active s \<Longrightarrow> hasReceivedAudioSample s \<Longrightarrow> writer s = None \<Longrightarrow>
        P (s\<lparr>writer := Some AVAssetWriter, writerInput := Some AVAssetWriterInput,
              trace := trace s @ [InitializeWriter None]\<rparr>)"
    and appendFailed: "\<And>s details. P s \<Longrightarrow> active s \<Longrightarrow> hasReceivedAudioSample s \<Longrightarrow>
        P (requestStop (s\<lparr>trace := trace s @
             [Append False, Stderr (SckError (AppendFailed details))]\<rparr>))"
    and appended: "\<And>s. P s \<Longrightarrow> active s \<Longrightarrow> hasReceivedAudioSample s \<Longrightarrow>
        P (s\<lparr>trace := trace s @ [Append True]\<rparr>)"
    and level: "\<And>s tenv sampleBuffer. P s \<Longrightarrow> active s \<Longrightarrow> hasReceivedAudioSample s \<Longrightarrow>
        P (emitTelemetry False tenv
             (s\<lparr>smoothedLevel := spec_smoothed (smoothedLevel s) (computeRmsLevel sampleBuffer)\<rparr>))"
    and stop: "\<And>s. P s \<Longrightarrow> active s \<Longrightarrow> P (requestStop s)"
    and finish: "\<And>s stopCaptureError tenv. P s \<Longrightarrow> run s = Resumed \<Longrightarrow>
        P (run_finish stopCaptureError tenv s)"
  shows "P (step event s)"
proof (cases event)
  case (SampleBuffer outputType isValid sampleBuffer wenv tenv)
  show ?thesis
  proof (cases "active s")
    case True
    with assms(1) have "P (stream outputType isValid sampleBuffer wenv tenv s)"
      by (rule stream_invariant) (fact received initFailed initialized appendFailed appended level)+
    with True SampleBuffer show ?thesis by (simp add: active_def)
  next
    case False
    with assms(1) SampleBuffer show ?thesis by (simp add: active_def)
  qed
next
  case (StdinReadable availableData decoded)
  with assms(1) stop [of s] show ?thesis
    by (auto simp: stdinHandler_def active_def split: option.splits)
next
  case (StopCaptureReturns stopCaptureError tenv)
  with assms(1) finish [of s] show ?thesis by simp
qed

lemma run_events_invariant [consumes 1, case_names received initFailed initialized appendFailed appended level stop finish]:
  assumes "P s"
    and received: "\<And>s. P s \<Longrightarrow> active s \<Longrightarrow> P (s\<lparr>hasReceivedAudioSample := True\<rparr>)"
    and initFailed: "\<And>s error. P s \<Longrightarrow> active s \<Longrightarrow> hasReceivedAudioSample s \<Longrightarrow> writer s = None \<Longrightarrow>
        P (requestStop (s\<lparr>trace := trace s @
             [InitializeWriter (Some error), Stderr (SckError (InitializeWriterFailed error))]\<rparr>))"
    and initialized: "\<And>s. P s \<Longrightarrow> active s \<Longrightarrow> hasReceivedAudioSample s \<Longrightarrow> writer s = None \<Longrightarrow>
        P (s\<lparr>writer := Some AVAssetWriter, writerInput := Some AVAssetWriterInput,
              trace := trace s @ [InitializeWriter None]\<rparr>)"
    and appendFailed: "\<And>s details. P s \<Longrightarrow> active s \<Longrightarrow> hasReceivedAudioSample s \<Longrightarrow>
        P (requestStop (s\<lparr>trace := trace s @
             [Append False, Stderr (SckError (AppendFailed details))]\<rparr>))"
    and appended: "\<And>s. P s \<Longrightarrow> active s \<Longrightarrow> hasReceivedAudioSample s \<Longrightarrow>
        P (s\<lparr>trace := trace s @ [Append True]\<rparr>)"
    and level: "\<And>s tenv sampleBuffer. P s \<Longrightarrow> active s \<Longrightarrow> hasReceivedAudioSample s \<Longrightarrow>
        P (emitTelemetry False tenv
             (s\<lparr>smoothedLevel := spec_smoothed (smoothedLevel s) (computeRmsLevel sampleBuffer)\<rparr>))"
    and stop: "\<And>s. P s \<Longrightarrow> active s \<Longrightarrow> P (requestStop s)"
    and finish: "\<And>s stopCaptureError tenv. P s \<Longrightarrow> run s = Resumed \<Longrightarrow>
        P (run_finish stopCaptureError tenv s)"
  shows "P (run_events events s)"
  using assms(1)
proof (induction events arbitrary: s)
  case Nil
  then show ?case by (simp add: run_events_def)
next
  case (Cons event events)
  from Cons.prems have "P (step event s)"
    by (rule step_invariant) (fact received initFailed initialized appendFailed appended level stop finish)+
  then have "P (run_events events (step event s))" by (rule Cons.IH)
  then show ?case by (simp add: run_events_def)
qed

lemma control_ok_run_finish: "control_ok s \<Longrightarrow> control_ok (run_finish stopCaptureError tenv s)"
  using emitTelemetry_run [of True tenv "finalizeWriter (s\<lparr>trace := trace s @ [StopCapture None]\<rparr>)"]
  by (auto simp: control_ok_def run_finish_def finalizeWriter_def Let_def split: option.splits)

lemma control_ok_started: "control_ok (started date)"
  by (simp add: control_ok_def started_def run_start_def init_def)

lemma control_ok_run_events: "control_ok (run_events events (started date))"
  using control_ok_started [of date]
proof (induction rule: run_events_invariant)
  case (level s tenv sampleBuffer)
  then show ?case by (simp add: control_ok_emitTelemetry)
qed (simp_all add: control_ok_requestStop control_ok_run_finish)

subsection \<open>The no-sample error\<close>

lemma emitTelemetry_received:
  "hasReceivedAudioSample s \<Longrightarrow>
     emittedNoSampleError (emitTelemetry force env s) = emittedNoSampleError s \<and>
     count_list (trace (emitTelemetry force env s)) (Stderr (SckError NoAudioSamples))
       = count_list (trace s) (Stderr (SckError NoAudioSamples))"
  by (simp add: emitTelemetry_def Let_def)

lemma emitTelemetry_forced:
  "\<not> emittedNoSampleError s \<Longrightarrow>
     emittedNoSampleError (emitTelemetry True env s)
       = (\<not> hasReceivedAudioSample s \<and> now env - startedAt s > 2.5) \<and>
     count_list (trace (emitTelemetry True env s)) (Stderr (SckError NoAudioSamples))
       = count_list (trace s) (Stderr (SckError NoAudioSamples))
         + (if \<not> hasReceivedAudioSample s \<and> now env - startedAt s > 2.5 then 1 else 0)"
  by (simp add: emitTelemetry_def Let_def)

lemma finalizeWriter_fields [simp]:
  "writer (finalizeWriter s) = writer s"
  "writerInput (finalizeWriter s) = writerInput s"
  "stopRequested (finalizeWriter s) = stopRequested s"
  "startedAt (finalizeWriter s) = startedAt s"
  "lastTelemetry (finalizeWriter s) = lastTelemetry s"
  "smoothedLevel (finalizeWriter s) = smoothedLevel s"
  "hasReceivedAudioSample (finalizeWriter s) = hasReceivedAudioSample s"
  "emittedNoSampleError (finalizeWriter s) = emittedNoSampleError s"
  "run (finalizeWriter s) = run s"
  by (simp_all add: finalizeWriter_def split: option.splits)

lemma finalizeWriter_trace:
  "trace (finalizeWriter s)
   = trace s @ (if writer s \<noteq> None \<and> writerInput s \<noteq> None then [MarkAsFinished, FinishWriting] else [])"
  by (simp add: finalizeWriter_def split: option.splits)

lemma run_finish_error:
  "run_finish (Some error) tenv s
   = s\<lparr>trace := trace s @ [StopCapture (Some error), Stderr (SckError (RunFailed error)), Exit 1],
       run := Exited 1\<rparr>"
  by (simp add: run_finish_def)

lemma run_finish_inactive: "\<not> active (run_finish stopCaptureError tenv s)"
  using emitTelemetry_run [of True tenv "finalizeWriter (s\<lparr>trace := trace s @ [StopCapture None]\<rparr>)"]
  by (cases stopCaptureError) (auto simp: run_finish_def active_def Let_def)

lemma run_finish_fields:
  "startedAt (run_finish stopCaptureError tenv s) = startedAt s"
  "stopRequested (run_finish stopCaptureError tenv s) = stopRequested s"
  "hasReceivedAudioSample (run_finish stopCaptureError tenv s) = hasReceivedAudioSample s"
  "writer (run_finish stopCaptureError tenv s) = writer s"
  "writerInput (run_finish stopCaptureError tenv s) = writerInput s"
  "smoothedLevel (run_finish stopCaptureError tenv s) = smoothedLevel s"
  by (simp_all add: run_finish_def Let_def split: option.splits)

lemma run_finish_no_sample:
  assumes "\<not> emittedNoSampleError s"
  shows "emittedNoSampleError (run_finish stopCaptureError tenv s)
           = (stopCaptureError = None \<and> \<not> hasReceivedAudioSample s \<and> now tenv - startedAt s > 2.5)"
    and "count_list (trace (run_finish stopCaptureError tenv s)) (Stderr (SckError NoAudioSamples))
           = count_list (trace s) (Stderr (SckError NoAudioSamples))
             + (if stopCaptureError = None \<and> \<not> hasReceivedAudioSample s \<and> now tenv - startedAt s > 2.5
                then 1 else 0)"
proof -
  let ?s1 = "finalizeWriter (s\<lparr>trace := trace s @ [StopCapture None]\<rparr>)"
  have s1: "\<not> emittedNoSampleError ?s1" using assms by simp
  have c1: "count_list (trace ?s1) (Stderr (SckError NoAudioSamples))
            = count_list (trace s) (Stderr (SckError NoAudioSamples))"
    by (simp add: finalizeWriter_trace)
  note f = emitTelemetry_forced [OF s1, of tenv]
  show "emittedNoSampleError (run_finish stopCaptureError tenv s)
           = (stopCaptureError = None \<and> \<not> hasReceivedAudioSample s \<and> now tenv - startedAt s > 2.5)"
    using assms f by (cases stopCaptureError) (simp_all add: run_finish_def Let_def)
  show "count_list (trace (run_finish stopCaptureError tenv s)) (Stderr (SckError NoAudioSamples))
           = count_list (trace s) (Stderr (SckError NoAudioSamples))
             + (if stopCaptureError = None \<and> \<not> hasReceivedAudioSample s \<and> now tenv - startedAt s > 2.5
                then 1 else 0)"
    using f c1 by (cases stopCaptureError) (simp_all add: run_finish_def Let_def)
qed

lemma no_sample_inv_active: "no_sample_inv date s \<Longrightarrow> active s \<Longrightarrow> \<not> emittedNoSampleError s"
  by (auto simp: no_sample_inv_def no_sample_ok_def)

lemma no_sample_inv_run_events: "no_sample_inv date (run_events events (started date))"
proof -
  have "no_sample_inv date (started date)"
    by (simp add: no_sample_inv_def control_ok_started)
       (simp add: no_sample_ok_def started_def run_start_def init_def)
  then show ?thesis
  proof (induction rule: run_events_invariant)
    case (received s)
    then have "\<not> emittedNoSampleError s" by (rule no_sample_inv_active)
    with received show ?case
      by (simp add: no_sample_inv_def no_sample_ok_def)
  next
    case (initFailed s error)
    then have "\<not> emittedNoSampleError s" by (intro no_sample_inv_active)
    with initFailed show ?case
      by (simp add: no_sample_inv_def no_sample_ok_def control_ok_requestStop)
  next
    case (initialized s)
    then show ?case
      by (simp add: no_sample_inv_def no_sample_ok_def)
  next
    case (appendFailed s details)
    then have "\<not> emittedNoSampleError s" by (intro no_sample_inv_active)
    with appendFailed show ?case
      by (simp add: no_sample_inv_def no_sample_ok_def control_ok_requestStop)
  next
    case (appended s)
    then show ?case
      by (simp add: no_sample_inv_def no_sample_ok_def)
  next
    case (level s tenv sampleBuffer)
    then have "\<not> emittedNoSampleError s" by (intro no_sample_inv_active)
    with level show ?case
      by (simp add: no_sample_inv_def no_sample_ok_def control_ok_emitTelemetry
          emitTelemetry_received)
  next
    case (stop s)
    then have "\<not> emittedNoSampleError s" by (intro no_sample_inv_active)
    with stop show ?case
      by (simp add: no_sample_inv_def no_sample_ok_def control_ok_requestStop)
  next
    case (finish s stopCaptureError tenv)
    then have "active s" by (simp add: active_def)
    with finish have a: "\<not> emittedNoSampleError s" by (intro no_sample_inv_active)
    from finish have r: "stopRequested s"
      by (simp add: no_sample_inv_def control_ok_def)
    from finish a r show ?case
      using run_finish_no_sample [OF a, of stopCaptureError tenv]
      by (simp add: no_sample_inv_def no_sample_ok_def control_ok_run_finish run_finish_fields
          run_finish_inactive)
  qed
qed

subsection \<open>Readings of the trace\<close>

lemma emissions_append [simp]: "emissions (xs @ ys) = emissions xs @ emissions ys"
  by (simp add: emissions_def)

lemma emissions_simps [simp]:
  "emissions [] = []"
  "emissions (EmitTelemetry t force # xs) = (t, force) # emissions xs"
  "emissions (Stderr line # xs) = emissions xs"
  "emissions (InitializeWriter outcome # xs) = emissions xs"
  "emissions (Append ok # xs) = emissions xs"
  "emissions (StopCapture result # xs) = emissions xs"
  "emissions (MarkAsFinished # xs) = emissions xs"
  "emissions (FinishWriting # xs) = emissions xs"
  "emissions (Exit code # xs) = emissions xs"
  by (simp_all add: emissions_def)

lemma unforced_times_append [simp]:
  "unforced_times (xs @ ys) = unforced_times xs @ unforced_times ys"
  by (simp add: unforced_times_def)

lemma unforced_times_quiet: "emissions xs = [] \<Longrightarrow> unforced_times xs = []"
  by (simp add: unforced_times_def)

lemma unforced_times_all:
  "\<forall>e \<in> set (emissions xs). \<not> snd e \<Longrightarrow> set (emissions xs) = (\<lambda>t. (t, False)) ` set (unforced_times xs)"
  by (force simp: unforced_times_def)

lemma level_lines_append [simp]: "level_lines (xs @ ys) = level_lines xs @ level_lines ys"
  by (simp add: level_lines_def)

lemma level_lines_simps [simp]:
  "level_lines [] = []"
  "level_lines (Stderr (Level x) # xs) = x # level_lines xs"
  "level_lines (Stderr (SckError m) # xs) = level_lines xs"
  "level_lines (Stderr (TotalSize n) # xs) = level_lines xs"
  "level_lines (Stderr (OutTimeUs n) # xs) = level_lines xs"
  "level_lines (EmitTelemetry t force # xs) = level_lines xs"
  "level_lines (InitializeWriter outcome # xs) = level_lines xs"
  "level_lines (Append ok # xs) = level_lines xs"
  "level_lines (StopCapture result # xs) = level_lines xs"
  "level_lines (MarkAsFinished # xs) = level_lines xs"
  "level_lines (FinishWriting # xs) = level_lines xs"
  "level_lines (Exit code # xs) = level_lines xs"
  by (simp_all add: level_lines_def)

lemma total_size_lines_append [simp]:
  "total_size_lines (xs @ ys) = total_size_lines xs @ total_size_lines ys"
  by (simp add: total_size_lines_def)

lemma out_time_lines_append [simp]:
  "out_time_lines (xs @ ys) = out_time_lines xs @ out_time_lines ys"
  by (simp add: out_time_lines_def)

lemma total_size_lines_simps [simp]:
  "total_size_lines [] = []"
  "total_size_lines (Stderr (TotalSize n) # xs) = n # total_size_lines xs"
  "total_size_lines (Stderr (SckError m) # xs) = total_size_lines xs"
  "total_size_lines (Stderr (OutTimeUs n) # xs) = total_size_lines xs"
  "total_size_lines (Stderr (Level x) # xs) = total_size_lines xs"
  "total_size_lines (EmitTelemetry t force # xs) = total_size_lines xs"
  "total_size_lines (InitializeWriter outcome # xs) = total_size_lines xs"
  "total_size_lines (Append ok # xs) = total_size_lines xs"
  "total_size_lines (StopCapture result # xs) = total_size_lines xs"
  "total_size_lines (MarkAsFinished # xs) = total_size_lines xs"
  "total_size_lines (FinishWriting # xs) = total_size_lines xs"
  "total_size_lines (Exit code # xs) = total_size_lines xs"
  by (simp_all add: total_size_lines_def)

lemma out_time_lines_simps [simp]:
  "out_time_lines [] = []"
  "out_time_lines (Stderr (OutTimeUs n) # xs) = n # out_time_lines xs"
  "out_time_lines (Stderr (SckError m) # xs) = out_time_lines xs"
  "out_time_lines (Stderr (TotalSize n) # xs) = out_time_lines xs"
  "out_time_lines (Stderr (Level x) # xs) = out_time_lines xs"
  "out_time_lines (EmitTelemetry t force # xs) = out_time_lines xs"
  "out_time_lines (InitializeWriter outcome # xs) = out_time_lines xs"
  "out_time_lines (Append ok # xs) = out_time_lines xs"
  "out_time_lines (StopCapture result # xs) = out_time_lines xs"
  "out_time_lines (MarkAsFinished # xs) = out_time_lines xs"
  "out_time_lines (FinishWriting # xs) = out_time_lines xs"
  "out_time_lines (Exit code # xs) = out_time_lines xs"
  by (simp_all add: out_time_lines_def)

lemma finalized_append [simp]: "finalized (xs @ ys) \<longleftrightarrow> finalized xs \<or> finalized ys"
  by (auto simp: finalized_def)

lemma finalized_simps [simp]:
  "\<not> finalized []"
  "finalized (MarkAsFinished # xs)"
  "finalized (FinishWriting # xs)"
  "finalized (Stderr line # xs) = finalized xs"
  "finalized (EmitTelemetry t force # xs) = finalized xs"
  "finalized (InitializeWriter outcome # xs) = finalized xs"
  "finalized (Append ok # xs) = finalized xs"
  "finalized (StopCapture result # xs) = finalized xs"
  "finalized (Exit code # xs) = finalized xs"
  by (auto simp: finalized_def)

lemma emitTelemetry_emissions:
  "emissions (trace (emitTelemetry force env s))
   = emissions (trace s) @ (if passes_throttle force env s then [(now env, force)] else [])"
  by (simp add: emitTelemetry_def passes_throttle_def Let_def)

lemma emitTelemetry_unforced_times:
  "unforced_times (trace (emitTelemetry False env s))
   = unforced_times (trace s) @ (if passes_throttle False env s then [now env] else [])"
  by (simp add: unforced_times_def emitTelemetry_emissions)

lemma emitTelemetry_lastTelemetry:
  "lastTelemetry (emitTelemetry force env s)
   = (if passes_throttle force env s then now env else lastTelemetry s)"
  by (simp add: emitTelemetry_def passes_throttle_def Let_def)

lemma emitTelemetry_level_lines:
  "level_lines (trace (emitTelemetry force env s)) = level_lines (trace s) \<or>
   level_lines (trace (emitTelemetry force env s)) = level_lines (trace s) @ [smoothedLevel s]"
  by (simp add: emitTelemetry_def Let_def)

lemma emitTelemetry_initialize:
  "count_list (trace (emitTelemetry force env s)) (InitializeWriter outcome)
     = count_list (trace s) (InitializeWriter outcome)"
  "list_ex is_initialize (trace (emitTelemetry force env s)) = list_ex is_initialize (trace s)"
  "list_ex is_failed_initialize (trace (emitTelemetry force env s))
     = list_ex is_failed_initialize (trace s)"
  by (simp_all add: emitTelemetry_def Let_def)

lemma emitTelemetry_throttled:
  "\<not> force \<and> now env - lastTelemetry self < 0.20 \<Longrightarrow> emitTelemetry force env self = self"
  by (simp add: emitTelemetry_def)

lemma emitTelemetry_trace:
  "trace (emitTelemetry force env self)
   = trace self @
     (if \<not> force \<and> now env - lastTelemetry self < 0.20 then []
      else [EmitTelemetry (now env) force]
        @ (if \<not> hasReceivedAudioSample self \<and> \<not> emittedNoSampleError self
              \<and> now env - startedAt self > 2.5
           then [Stderr (SckError NoAudioSamples)] else [])
        @ (if (now env - startedAt self) * 1000000 \<le> - 1
              \<or> 18446744073709551616 \<le> (now env - startedAt self) * 1000000
           then []
           else [Stderr (TotalSize (case fileSize env of Some n \<Rightarrow> n | None \<Rightarrow> 0)),
                 Stderr (OutTimeUs (nat \<lfloor>(now env - startedAt self) * 1000000\<rfloor>)),
                 Stderr (Level (smoothedLevel self))]))"
  by (simp add: emitTelemetry_def Let_def)

lemma emitTelemetry_run_exact:
  "run (emitTelemetry force env self)
   = (if (force \<or> \<not> now env - lastTelemetry self < 0.20) \<and>
         ((now env - startedAt self) * 1000000 \<le> - 1
          \<or> 18446744073709551616 \<le> (now env - startedAt self) * 1000000)
      then Trapped else run self)"
  by (simp add: emitTelemetry_def Let_def)

lemma emitTelemetry_finalized:
  "finalized (trace (emitTelemetry force env s)) = finalized (trace s)"
  by (simp add: emitTelemetry_trace)

lemma run_finish_emissions:
  "emissions (trace (run_finish stopCaptureError tenv s))
   = emissions (trace s) @ (if stopCaptureError = None then [(now tenv, True)] else [])"
  by (cases stopCaptureError)
     (simp_all add: run_finish_def Let_def emitTelemetry_emissions passes_throttle_def
        finalizeWriter_trace)

lemma run_finish_unforced_times:
  "unforced_times (trace (run_finish stopCaptureError tenv s)) = unforced_times (trace s)"
  by (simp add: unforced_times_def run_finish_emissions)

lemma run_finish_level_lines:
  "level_lines (trace (run_finish stopCaptureError tenv s)) = level_lines (trace s) \<or>
   level_lines (trace (run_finish stopCaptureError tenv s)) = level_lines (trace s) @ [smoothedLevel s]"
proof (cases stopCaptureError)
  case None
  let ?s1 = "finalizeWriter (s\<lparr>trace := trace s @ [StopCapture None]\<rparr>)"
  have "level_lines (trace ?s1) = level_lines (trace s)" "smoothedLevel ?s1 = smoothedLevel s"
    by (simp_all add: finalizeWriter_trace)
  with emitTelemetry_level_lines [of True tenv ?s1] None show ?thesis
    by (auto simp: run_finish_def Let_def)
next
  case (Some error)
  then show ?thesis by (simp add: run_finish_def)
qed

lemma run_finish_initialize:
  "count_list (trace (run_finish stopCaptureError tenv s)) (InitializeWriter outcome)
     = count_list (trace s) (InitializeWriter outcome)"
  "list_ex is_initialize (trace (run_finish stopCaptureError tenv s)) = list_ex is_initialize (trace s)"
  "list_ex is_failed_initialize (trace (run_finish stopCaptureError tenv s))
     = list_ex is_failed_initialize (trace s)"
  by (cases stopCaptureError;
      simp add: run_finish_def Let_def emitTelemetry_initialize finalizeWriter_trace)+

subsection \<open>The invariants hold in every run\<close>

lemma writer_ok_run_events: "writer_ok (run_events events (started date))"
proof -
  have "writer_ok (started date)"
    by (simp add: writer_ok_def started_def run_start_def init_def)
  then show ?thesis
  proof (induction rule: run_events_invariant)
    case (received s)
    then show ?case by (simp add: writer_ok_def)
  next
    case (initFailed s error)
    then show ?case by (simp add: writer_ok_def)
  next
    case (initialized s)
    then show ?case by (simp add: writer_ok_def)
  next
    case (appendFailed s details)
    then show ?case by (simp add: writer_ok_def)
  next
    case (appended s)
    then show ?case by (simp add: writer_ok_def)
  next
    case (level s tenv sampleBuffer)
    then show ?case by (simp add: writer_ok_def emitTelemetry_initialize)
  next
    case (stop s)
    then show ?case by (simp add: writer_ok_def)
  next
    case (finish s stopCaptureError tenv)
    then show ?case by (auto simp: writer_ok_def run_finish_initialize run_finish_fields)
  qed
qed

lemma level_ok_run_events: "level_ok (run_events events (started date))"
proof -
  have "level_ok (started date)"
    by (simp add: level_ok_def started_def run_start_def init_def)
  then show ?thesis
  proof (induction rule: run_events_invariant)
    case (level s tenv sampleBuffer)
    let ?s = "s\<lparr>smoothedLevel := spec_smoothed (smoothedLevel s) (computeRmsLevel sampleBuffer)\<rparr>"
    from level have "in_unit_range (smoothedLevel ?s)"
      by (simp add: level_ok_def in_unit_range_spec_smoothed in_unit_range_computeRmsLevel)
    with level emitTelemetry_level_lines [of False tenv ?s] show ?case
      by (auto simp: level_ok_def)
  next
    case (finish s stopCaptureError tenv)
    with run_finish_level_lines [of stopCaptureError tenv s] show ?case
      by (auto simp: level_ok_def run_finish_fields)
  qed (simp_all add: level_ok_def)
qed

lemma throttle_ok_updates [simp]:
  "throttle_ok (s\<lparr>hasReceivedAudioSample := b\<rparr>) = throttle_ok s"
  "throttle_ok (s\<lparr>smoothedLevel := x\<rparr>) = throttle_ok s"
  by (simp_all add: throttle_ok_def)

lemma throttle_ok_requestStop: "throttle_ok s \<Longrightarrow> active s \<Longrightarrow> throttle_ok (requestStop s)"
  by (simp add: throttle_ok_def requestStop_active)

lemma throttle_ok_quiet:
  "throttle_ok s \<Longrightarrow> emissions actions = [] \<Longrightarrow> throttle_ok (s\<lparr>trace := trace s @ actions\<rparr>)"
  by (simp add: throttle_ok_def unforced_times_quiet)

lemma throttle_ok_emitTelemetry:
  assumes "throttle_ok s" "active s"
  shows "throttle_ok (emitTelemetry False env s)"
proof -
  let ?s' = "emitTelemetry False env s"
  from assms have before: "\<forall>t \<in> set (unforced_times (trace s)). t \<le> lastTelemetry s"
    and unforced: "\<forall>e \<in> set (emissions (trace s)). \<not> snd e"
    and sorted: "sorted_wrt (\<lambda>earlier later. 0.2 \<le> later - earlier) (unforced_times (trace s))"
    by (simp_all add: throttle_ok_def)
  show ?thesis
  proof (cases "passes_throttle False env s")
    case False
    then have "emissions (trace ?s') = emissions (trace s)"
      "unforced_times (trace ?s') = unforced_times (trace s)"
      "lastTelemetry ?s' = lastTelemetry s"
      by (simp_all add: emitTelemetry_emissions emitTelemetry_unforced_times
          emitTelemetry_lastTelemetry)
    with assms(1) before unforced show ?thesis
      by (simp add: throttle_ok_def)
  next
    case True
    then have gap: "0.2 \<le> now env - lastTelemetry s"
      by (simp add: passes_throttle_def)
    have em: "emissions (trace ?s') = emissions (trace s) @ [(now env, False)]"
      and ut: "unforced_times (trace ?s') = unforced_times (trace s) @ [now env]"
      and lt: "lastTelemetry ?s' = now env"
      using True
      by (simp_all add: emitTelemetry_emissions emitTelemetry_unforced_times
          emitTelemetry_lastTelemetry)
    from before gap have far: "\<forall>t \<in> set (unforced_times (trace s)). 0.2 \<le> now env - t"
      by fastforce
    then have near: "\<forall>t \<in> set (unforced_times (trace s)). t \<le> now env"
      by fastforce
    from sorted far have "sorted_wrt (\<lambda>earlier later. 0.2 \<le> later - earlier) (unforced_times (trace ?s'))"
      unfolding ut by (simp add: sorted_wrt_append)
    moreover have "\<forall>e \<in> set (butlast (emissions (trace ?s'))). \<not> snd e"
      unfolding em using unforced by simp
    moreover have "\<forall>t \<in> set (unforced_times (trace ?s')). t \<le> lastTelemetry ?s'"
      unfolding ut lt using near by simp
    moreover have "\<forall>e \<in> set (emissions (trace ?s')). \<not> snd e"
      unfolding em using unforced by simp
    ultimately show ?thesis
      by (simp add: throttle_ok_def)
  qed
qed

lemma throttle_ok_run_finish:
  assumes "throttle_ok s" "active s"
  shows "throttle_ok (run_finish stopCaptureError tenv s)"
proof -
  let ?s' = "run_finish stopCaptureError tenv s"
  from assms have unforced: "\<forall>e \<in> set (emissions (trace s)). \<not> snd e"
    and sorted: "sorted_wrt (\<lambda>earlier later. 0.2 \<le> later - earlier) (unforced_times (trace s))"
    by (simp_all add: throttle_ok_def)
  have "\<forall>e \<in> set (butlast (emissions (trace ?s'))). \<not> snd e"
    using unforced by (auto simp: run_finish_emissions dest: in_set_butlastD)
  with sorted run_finish_inactive [of stopCaptureError tenv s] show ?thesis
    by (simp add: throttle_ok_def run_finish_unforced_times)
qed

lemma throttle_ok_run_events: "throttle_ok (run_events events (started date))"
proof -
  have "throttle_ok (started date)"
    by (simp add: throttle_ok_def started_def run_start_def init_def unforced_times_def)
  then show ?thesis
  proof (induction rule: run_events_invariant)
    case (initFailed s error)
    then show ?case
      by (intro throttle_ok_requestStop throttle_ok_quiet) simp_all
  next
    case (initialized s)
    then have "throttle_ok (s\<lparr>trace := trace s @ [InitializeWriter None]\<rparr>)"
      by (intro throttle_ok_quiet) simp_all
    then show ?case by (simp add: throttle_ok_def active_def)
  next
    case (appendFailed s details)
    then show ?case
      by (intro throttle_ok_requestStop throttle_ok_quiet) simp_all
  next
    case (appended s)
    then show ?case
      by (intro throttle_ok_quiet) simp_all
  next
    case (level s tenv sampleBuffer)
    then show ?case
      by (intro throttle_ok_emitTelemetry) simp_all
  next
    case (finish s stopCaptureError tenv)
    then show ?case
      by (intro throttle_ok_run_finish) (simp_all add: active_def)
  qed (simp_all add: throttle_ok_requestStop)
qed

lemma lines_ok_emitTelemetry:
  assumes "lines_ok date s" "run s \<noteq> Trapped"
  shows "lines_ok date (emitTelemetry force env s)"
  using assms
  by (simp add: lines_ok_def written_emissions_def emitTelemetry_trace emitTelemetry_run_exact)

lemma lines_ok_quiet:
  assumes "lines_ok date s" "run s \<noteq> Trapped" "emissions actions = []" "out_time_lines actions = []"
    "total_size_lines actions = []" "level_lines actions = []"
  shows "lines_ok date (s\<lparr>trace := trace s @ actions\<rparr>)"
  using assms by (simp add: lines_ok_def written_emissions_def)

lemma lines_ok_updates [simp]:
  "lines_ok date (s\<lparr>hasReceivedAudioSample := b\<rparr>) = lines_ok date s"
  "lines_ok date (s\<lparr>smoothedLevel := x\<rparr>) = lines_ok date s"
  "lines_ok date (s\<lparr>writer := w\<rparr>) = lines_ok date s"
  "lines_ok date (s\<lparr>writerInput := i\<rparr>) = lines_ok date s"
  by (simp_all add: lines_ok_def written_emissions_def)

lemma lines_ok_requestStop:
  assumes "lines_ok date s" "active s"
  shows "lines_ok date (requestStop s)"
proof -
  from assms(2) have "run s \<noteq> Trapped" by (auto simp: active_def)
  moreover from requestStop_active [OF assms(2)] have "run (requestStop s) \<noteq> Trapped"
    by (auto simp: active_def)
  ultimately show ?thesis using assms(1)
    by (simp add: lines_ok_def written_emissions_def)
qed

lemma lines_ok_run_finish:
  assumes "lines_ok date s" "run s = Resumed"
  shows "lines_ok date (run_finish stopCaptureError tenv s)"
proof (cases stopCaptureError)
  case (Some error)
  with assms show ?thesis
    by (simp add: run_finish_error lines_ok_def written_emissions_def)
next
  case None
  let ?s1 = "finalizeWriter (s\<lparr>trace := trace s @ [StopCapture None]\<rparr>)"
  let ?s2 = "emitTelemetry True tenv ?s1"
  from assms have "lines_ok date ?s1" "run ?s1 \<noteq> Trapped"
    by (simp_all add: lines_ok_def written_emissions_def finalizeWriter_trace)
  then have s2: "lines_ok date ?s2" by (rule lines_ok_emitTelemetry)
  show ?thesis
  proof (cases "run ?s2 = Trapped")
    case True
    with s2 None show ?thesis by (simp add: run_finish_def Let_def)
  next
    case False
    with s2 have "lines_ok date (?s2\<lparr>trace := trace ?s2 @ [Exit 0], run := Exited 0\<rparr>)"
      by (simp add: lines_ok_def written_emissions_def)
    with False None show ?thesis by (simp add: run_finish_def Let_def)
  qed
qed

lemma lines_ok_run_events: "lines_ok date (run_events events (started date))"
proof -
  have "lines_ok date (started date)"
    by (simp add: lines_ok_def written_emissions_def started_def run_start_def init_def)
  then show ?thesis
  proof (induction rule: run_events_invariant)
    case (received s)
    then show ?case by simp
  next
    case (initFailed s error)
    then show ?case
      by (intro lines_ok_requestStop lines_ok_quiet) (auto simp: active_def)
  next
    case (initialized s)
    then have "lines_ok date (s\<lparr>trace := trace s @ [InitializeWriter None]\<rparr>)"
      by (intro lines_ok_quiet) (auto simp: active_def)
    then show ?case by (simp add: lines_ok_def written_emissions_def)
  next
    case (appendFailed s details)
    then show ?case
      by (intro lines_ok_requestStop lines_ok_quiet) (auto simp: active_def)
  next
    case (appended s)
    then show ?case
      by (intro lines_ok_quiet) (auto simp: active_def)
  next
    case (level s tenv sampleBuffer)
    then show ?case
      by (intro lines_ok_emitTelemetry) (auto simp: active_def)
  next
    case (stop s)
    then show ?case by (rule lines_ok_requestStop)
  next
    case (finish s stopCaptureError tenv)
    then show ?case by (rule lines_ok_run_finish)
  qed
qed

lemma run_events_snoc: "run_events (events @ [event]) s = step event (run_events events s)"
  by (simp add: run_events_def)

section \<open>The claims about the capture adapter\<close>

subsection \<open>Level\<close>

lemma sum_of_squares_Finite_aux:
  "foldl (\<lambda>accum sample. fadd accum (fmul sample sample)) (Finite a) (map Finite xs)
   = Finite (a + sum_list (map (\<lambda>x. x * x) xs))"
  by (induction xs arbitrary: a) (simp_all add: add.assoc)

lemma spec_rms_level_Finite:
  assumes "xs \<noteq> []"
  shows "spec_rms_level (map Finite xs)
         = Finite (min 1 (sqrt (sum_list (map (\<lambda>x. x * x) xs) / real (length xs)) * 2.8))"
proof -
  have nonneg: "0 \<le> sum_list (map (\<lambda>x. x * x) xs) / real (length xs)"
    by (intro divide_nonneg_nonneg sum_list_nonneg) auto
  from assms have "real (length xs) \<noteq> 0" by simp
  with assms nonneg show ?thesis
    by (simp add: spec_rms_level_def sum_of_squares_def sum_of_squares_Finite_aux
        swift_min_def min_def not_less)
qed

lemma stream_smoothed:
  assumes "writer self = None \<longrightarrow> assetWriterError wenv = None \<and> canAdd wenv \<and> startWriting wenv"
    and "writer self \<noteq> None \<longrightarrow> writerInput self \<noteq> None"
    and "isReadyForMoreMediaData wenv \<longrightarrow> appendResult wenv"
  shows "smoothedLevel (stream audio True sampleBuffer wenv tenv self)
         = spec_smoothed (smoothedLevel self) (computeRmsLevel sampleBuffer)"
  using assms
  by (auto simp: stream_def initializeWriterIfNeeded_def initializeWriter_def appendSampleBuffer_def
      updateLevel_eq Let_def split: option.splits)

lemma stream_not_smoothed:
  assumes "\<not> (outputType = audio \<and> isValid \<and>
      (writer self = None \<longrightarrow> assetWriterError wenv = None \<and> canAdd wenv \<and> startWriting wenv) \<and>
      (writer self \<noteq> None \<longrightarrow> writerInput self \<noteq> None) \<and>
      (isReadyForMoreMediaData wenv \<longrightarrow> appendResult wenv))"
  shows "smoothedLevel (stream outputType isValid sampleBuffer wenv tenv self) = smoothedLevel self"
  using assms
  by (auto simp: stream_def initializeWriterIfNeeded_def initializeWriter_def appendSampleBuffer_def
      updateLevel_eq Let_def split: option.splits)

lemma run_events_smoothed:
  assumes "active (run_events events (started date))"
    and "writer (run_events events (started date)) = None \<longrightarrow>
           assetWriterError wenv = None \<and> canAdd wenv \<and> startWriting wenv"
    and "isReadyForMoreMediaData wenv \<longrightarrow> appendResult wenv"
  shows "smoothedLevel (run_events (events @ [SampleBuffer audio True sampleBuffer wenv tenv]) (started date))
         = spec_smoothed (smoothedLevel (run_events events (started date))) (computeRmsLevel sampleBuffer)"
proof -
  let ?s = "run_events events (started date)"
  have "writer_ok ?s" by (rule writer_ok_run_events)
  then have "writer ?s \<noteq> None \<longrightarrow> writerInput ?s \<noteq> None"
    by (auto simp: writer_ok_def)
  with assms(2,3) have "smoothedLevel (stream audio True sampleBuffer wenv tenv ?s)
      = spec_smoothed (smoothedLevel ?s) (computeRmsLevel sampleBuffer)"
    by (intro stream_smoothed)
  with assms(1) show ?thesis
    by (simp add: run_events_snoc active_def)
qed

lemma stream_level_line:
  "level_lines (trace (stream outputType isValid sampleBuffer wenv tenv self))
     = level_lines (trace self) \<or>
   level_lines (trace (stream outputType isValid sampleBuffer wenv tenv self))
     = level_lines (trace self) @ [smoothedLevel (stream outputType isValid sampleBuffer wenv tenv self)]"
proof (cases "outputType = audio \<and> isValid")
  case False
  then show ?thesis by (auto simp: stream_def)
next
  case True
  let ?s0 = "self\<lparr>hasReceivedAudioSample := True\<rparr>"
  show ?thesis
  proof (cases "initializeWriterIfNeeded wenv ?s0")
    case (Inl returned)
    with initializeWriterIfNeeded_Inl(2) [OF Inl] True show ?thesis
      by (auto simp: stream_def)
  next
    case (Inr s1)
    with initializeWriterIfNeeded_Inr [OF Inr]
    have s1: "level_lines (trace s1) = level_lines (trace self)"
      by auto
    show ?thesis
    proof (cases "appendSampleBuffer wenv s1")
      case (Inl returned)
      with appendSampleBuffer_Inl [OF Inl] s1 True Inr show ?thesis
        by (auto simp: stream_def)
    next
      case inr2: (Inr s2)
      let ?s3 = "s2\<lparr>smoothedLevel := spec_smoothed (smoothedLevel s2) (computeRmsLevel sampleBuffer)\<rparr>"
      from appendSampleBuffer_Inr [OF inr2] s1
      have s2: "level_lines (trace s2) = level_lines (trace self)" by auto
      have "stream outputType isValid sampleBuffer wenv tenv self = emitTelemetry False tenv ?s3"
        using True Inr inr2 by (simp add: stream_def updateLevel_eq)
      with emitTelemetry_level_lines [of False tenv ?s3] s2 show ?thesis
        by auto
    qed
  qed
qed

text \<open>
  Claim C3. The level of a sample buffer whose format description and buffer list can be read
  is the specification's level of the samples interpreted from it (16-bit signed integer or
  32-bit float): for finite samples, \<open>min 1 (rms \<cdot> 2.8)\<close> with \<open>rms\<close> the root of the mean
  square. Every sample buffer that the handler processes sets the smoothed level to 0.75 of
  the prior smoothed level plus 0.25 of that level, clamped to \<open>[0, 1]\<close>. A buffer is
  processed when it is a valid audio buffer, the writer exists or is initialized by this very
  call, and the append does not fail: so it is for the handler in any state of the recorder,
  and in every run from its first buffer on, the one that opens the writer. A buffer that is
  not processed leaves the smoothed level as it was. For levels in \<open>[0, 1]\<close> the clamp
  changes nothing. A \<^verbatim>\<open>level=\<close> line written by a call of the handler reports the smoothed
  level that the call leaves, and in every run the smoothed level and all reported levels lie
  in \<open>[0, 1]\<close>.
\<close>

theorem level_is_smoothed_rms:
  "(formatDescription sampleBuffer = Some description \<and>
    streamBasicDescription description = Some asbd \<and>
    audioBufferListStatus sampleBuffer = noErr \<longrightarrow>
      computeRmsLevel sampleBuffer
        = spec_rms_level (interpreted_samples asbd (audioBufferList sampleBuffer))) \<and>
   (xs \<noteq> [] \<longrightarrow>
      spec_rms_level (map Finite xs)
        = Finite (min 1 (sqrt (sum_list (map (\<lambda>x. x * x) xs) / real (length xs)) * 2.8))) \<and>
   ((writer self = None \<longrightarrow> assetWriterError wenv = None \<and> canAdd wenv \<and> startWriting wenv) \<and>
    (writer self \<noteq> None \<longrightarrow> writerInput self \<noteq> None) \<and>
    (isReadyForMoreMediaData wenv \<longrightarrow> appendResult wenv) \<longrightarrow>
      smoothedLevel (stream audio True sampleBuffer wenv tenv self)
        = clamped (fadd (fmul (smoothedLevel self) (Finite 0.75))
                        (fmul (computeRmsLevel sampleBuffer) (Finite 0.25)))
            (Finite 0) (Finite 1)) \<and>
   (\<not> (outputType = audio \<and> isValid \<and>
       (writer self = None \<longrightarrow> assetWriterError wenv = None \<and> canAdd wenv \<and> startWriting wenv) \<and>
       (writer self \<noteq> None \<longrightarrow> writerInput self \<noteq> None) \<and>
       (isReadyForMoreMediaData wenv \<longrightarrow> appendResult wenv)) \<longrightarrow>
      smoothedLevel (stream outputType isValid sampleBuffer wenv tenv self) = smoothedLevel self) \<and>
   (active (run_events events (started date)) \<and>
    (writer (run_events events (started date)) = None \<longrightarrow>
       assetWriterError wenv = None \<and> canAdd wenv \<and> startWriting wenv) \<and>
    (isReadyForMoreMediaData wenv \<longrightarrow> appendResult wenv) \<longrightarrow>
      smoothedLevel (run_events (events @ [SampleBuffer audio True sampleBuffer wenv tenv]) (started date))
        = clamped (fadd (fmul (smoothedLevel (run_events events (started date))) (Finite 0.75))
                        (fmul (computeRmsLevel sampleBuffer) (Finite 0.25)))
            (Finite 0) (Finite 1)) \<and>
   (0 \<le> a \<and> a \<le> 1 \<and> 0 \<le> b \<and> b \<le> 1 \<longrightarrow>
      clamped (fadd (fmul (Finite a) (Finite 0.75)) (fmul (Finite b) (Finite 0.25)))
        (Finite 0) (Finite 1)
      = Finite (a * 0.75 + b * 0.25) \<and> 0 \<le> a * 0.75 + b * 0.25 \<and> a * 0.75 + b * 0.25 \<le> 1) \<and>
   (level_lines (trace (stream outputType isValid sampleBuffer wenv tenv self))
      = level_lines (trace self) \<or>
    level_lines (trace (stream outputType isValid sampleBuffer wenv tenv self))
      = level_lines (trace self)
        @ [smoothedLevel (stream outputType isValid sampleBuffer wenv tenv self)]) \<and>
   in_unit_range (smoothedLevel (run_events events (started date))) \<and>
   list_all in_unit_range (level_lines (trace (run_events events (started date))))"
proof -
  have 1: "computeRmsLevel sampleBuffer
        = spec_rms_level (interpreted_samples asbd (audioBufferList sampleBuffer))"
    if "formatDescription sampleBuffer = Some description"
      "streamBasicDescription description = Some asbd"
      "audioBufferListStatus sampleBuffer = noErr"
    using that by (simp add: computeRmsLevel_eq)
  have 3: "smoothedLevel (stream audio True sampleBuffer wenv tenv self)
        = clamped (fadd (fmul (smoothedLevel self) (Finite 0.75))
                        (fmul (computeRmsLevel sampleBuffer) (Finite 0.25)))
            (Finite 0) (Finite 1)"
    if "writer self = None \<longrightarrow> assetWriterError wenv = None \<and> canAdd wenv \<and> startWriting wenv"
      "writer self \<noteq> None \<longrightarrow> writerInput self \<noteq> None"
      "isReadyForMoreMediaData wenv \<longrightarrow> appendResult wenv"
    using stream_smoothed [OF that] by (simp add: spec_smoothed_def)
  have 4: "clamped (fadd (fmul (Finite a) (Finite 0.75)) (fmul (Finite b) (Finite 0.25)))
        (Finite 0) (Finite 1)
      = Finite (a * 0.75 + b * 0.25) \<and> 0 \<le> a * 0.75 + b * 0.25 \<and> a * 0.75 + b * 0.25 \<le> 1"
    if "0 \<le> a" "a \<le> 1" "0 \<le> b" "b \<le> 1"
    using spec_smoothed_finite [OF that] that by (simp add: spec_smoothed_def)
  have 5: "smoothedLevel (run_events (events @ [SampleBuffer audio True sampleBuffer wenv tenv]) (started date))
        = clamped (fadd (fmul (smoothedLevel (run_events events (started date))) (Finite 0.75))
                        (fmul (computeRmsLevel sampleBuffer) (Finite 0.25)))
            (Finite 0) (Finite 1)"
    if "active (run_events events (started date))"
      "writer (run_events events (started date)) = None \<longrightarrow>
         assetWriterError wenv = None \<and> canAdd wenv \<and> startWriting wenv"
      "isReadyForMoreMediaData wenv \<longrightarrow> appendResult wenv"
    using run_events_smoothed [OF that] by (simp add: spec_smoothed_def)
  have 6: "level_ok (run_events events (started date))"
    by (rule level_ok_run_events)
  show ?thesis
    apply (intro conjI)
    subgoal by (intro impI, elim conjE, rule 1)
    subgoal by (intro impI, rule spec_rms_level_Finite)
    subgoal by (intro impI, elim conjE, rule 3)
    subgoal by (intro impI, rule stream_not_smoothed)
    subgoal by (intro impI, elim conjE, rule 5)
    subgoal by (intro impI, elim conjE, rule 4)
    subgoal by (rule stream_level_line)
    subgoal using 6 by (simp add: level_ok_def)
    subgoal using 6 by (simp add: level_ok_def)
    done
qed

text \<open>
  Claim C9. \<open>computeRmsLevel\<close> is a total function without a failing branch, its result
  lies in \<open>[0, 1]\<close> for every sample buffer (also for samples that are infinite or NaN), and
  it is 0 when the format description or its stream description is missing, when the buffer
  list cannot be extracted, when the layout is neither 32-bit float nor 16-bit signed integer,
  and when no sample was interpreted. The sample counter, the one integer that it adds up,
  stays below \<open>2\<^sup>3\<^sup>1\<close> per buffer, far from the range of \<^verbatim>\<open>Int\<close>.
\<close>

theorem computeRmsLevel_total_in_unit_range:
  "in_unit_range (computeRmsLevel sampleBuffer) \<and>
   (formatDescription sampleBuffer = None \<longrightarrow> computeRmsLevel sampleBuffer = Finite 0) \<and>
   (formatDescription sampleBuffer = Some description \<and> streamBasicDescription description = None
      \<longrightarrow> computeRmsLevel sampleBuffer = Finite 0) \<and>
   (audioBufferListStatus sampleBuffer \<noteq> noErr \<longrightarrow> computeRmsLevel sampleBuffer = Finite 0) \<and>
   (formatDescription sampleBuffer = Some description \<and>
    streamBasicDescription description = Some asbd \<and>
    \<not> (mFormatFlags asbd AND kAudioFormatFlagIsFloat \<noteq> 0 \<and> unat (mBitsPerChannel asbd) = 32) \<and>
    \<not> (mFormatFlags asbd AND kAudioFormatFlagIsSignedInteger \<noteq> 0 \<and> unat (mBitsPerChannel asbd) = 16)
      \<longrightarrow> computeRmsLevel sampleBuffer = Finite 0) \<and>
   (formatDescription sampleBuffer = Some description \<and>
    streamBasicDescription description = Some asbd \<and>
    interpreted_samples asbd (audioBufferList sampleBuffer) = []
      \<longrightarrow> computeRmsLevel sampleBuffer = Finite 0) \<and>
   snd (fold (accumulate_buffer (mFormatFlags asbd AND kAudioFormatFlagIsFloat \<noteq> 0)
               (mFormatFlags asbd AND kAudioFormatFlagIsSignedInteger \<noteq> 0)
               (unat (mBitsPerChannel asbd))) buffers (Finite 0, 0))
     \<le> length buffers * 2147483647"
proof -
  have counter: "snd (fold (accumulate_buffer (mFormatFlags asbd AND kAudioFormatFlagIsFloat \<noteq> 0)
               (mFormatFlags asbd AND kAudioFormatFlagIsSignedInteger \<noteq> 0)
               (unat (mBitsPerChannel asbd))) buffers (Finite 0, 0))
     \<le> length buffers * 2147483647"
    using length_interpreted_samples [of asbd buffers] by (simp add: fold_accumulate_buffer)
  have unsupported: "interpreted_samples asbd buffers = []"
    if "\<not> (mFormatFlags asbd AND kAudioFormatFlagIsFloat \<noteq> 0 \<and> unat (mBitsPerChannel asbd) = 32)"
      "\<not> (mFormatFlags asbd AND kAudioFormatFlagIsSignedInteger \<noteq> 0 \<and> unat (mBitsPerChannel asbd) = 16)"
    for buffers
    using that by (auto simp: interpreted_samples_def buffer_samples_def split: option.splits)
  have "in_unit_range (computeRmsLevel sampleBuffer) \<and>
   (formatDescription sampleBuffer = None \<longrightarrow> computeRmsLevel sampleBuffer = Finite 0) \<and>
   (formatDescription sampleBuffer = Some description \<and> streamBasicDescription description = None
      \<longrightarrow> computeRmsLevel sampleBuffer = Finite 0) \<and>
   (audioBufferListStatus sampleBuffer \<noteq> noErr \<longrightarrow> computeRmsLevel sampleBuffer = Finite 0) \<and>
   (formatDescription sampleBuffer = Some description \<and>
    streamBasicDescription description = Some asbd \<and>
    \<not> (mFormatFlags asbd AND kAudioFormatFlagIsFloat \<noteq> 0 \<and> unat (mBitsPerChannel asbd) = 32) \<and>
    \<not> (mFormatFlags asbd AND kAudioFormatFlagIsSignedInteger \<noteq> 0 \<and> unat (mBitsPerChannel asbd) = 16)
      \<longrightarrow> computeRmsLevel sampleBuffer = Finite 0) \<and>
   (formatDescription sampleBuffer = Some description \<and>
    streamBasicDescription description = Some asbd \<and>
    interpreted_samples asbd (audioBufferList sampleBuffer) = []
      \<longrightarrow> computeRmsLevel sampleBuffer = Finite 0)"
    using in_unit_range_computeRmsLevel [of sampleBuffer] unsupported [of "audioBufferList sampleBuffer"]
    by (auto simp: computeRmsLevel_eq spec_rms_level_def split: option.splits)
  with counter show ?thesis by blast
qed

lemmas recorder_defs = run_events_def started_def run_start_def init_def stream_def
  initializeWriterIfNeeded_def appendSampleBuffer_def updateLevel_def
  initializeWriter_def emitTelemetry_def requestStop_def run_finish_def finalizeWriter_def
  stdinHandler_def clamped_def swift_min_def swift_max_def Let_def distantPast_def
  writer_accepts_def writer_rejects_def

lemma interpreted_two_quarter_samples:
  "interpreted_samples int16_pcm (audioBufferList two_quarter_samples)
   = map Finite [1 / 4, - (1 / 4)]"
  by (simp add: interpreted_samples_def buffer_samples_def two_quarter_samples_def int16_pcm_def
      kAudioFormatFlagIsFloat_def kAudioFormatFlagIsSignedInteger_def upt_rec)

lemma sqrt_sixteenth: "sqrt (1 / 16) = 1 / 4"
  using real_sqrt_abs [of "1 / 4"] by (simp add: power2_eq_square)

lemma computeRmsLevel_two_quarter_samples: "computeRmsLevel two_quarter_samples = Finite (7 / 10)"
proof -
  have "computeRmsLevel two_quarter_samples = spec_rms_level (map Finite [1 / 4, - (1 / 4)])"
    using interpreted_two_quarter_samples
    by (simp add: computeRmsLevel_eq) (simp add: two_quarter_samples_def noErr_def)
  also have "\<dots> = Finite (7 / 10)"
    using spec_rms_level_Finite [of "[1 / 4, - (1 / 4)]"] by (simp add: sqrt_sixteenth)
  finally show ?thesis .
qed

lemmas example_defs = audio_sample_def computeRmsLevel_two_quarter_samples

theorem level_is_smoothed_rms_witness:
  "computeRmsLevel two_quarter_samples = Finite (7 / 10) \<and>
   smoothedLevel (run_events [audio_sample 1] (started 0)) = Finite (7 / 40) \<and>
   smoothedLevel (run_events [audio_sample 1, audio_sample 2] (started 0)) = Finite (49 / 160)"
proof -
  note inst = level_is_smoothed_rms
    [where sampleBuffer = two_quarter_samples
       and description = "CMFormatDescription (Some int16_pcm)" and asbd = int16_pcm
       and xs = "[1 / 4, - (1 / 4)]" and wenv = writer_accepts and date = 0]
  have format: "formatDescription two_quarter_samples = Some (CMFormatDescription (Some int16_pcm))"
    "audioBufferListStatus two_quarter_samples = noErr"
    by (simp_all add: two_quarter_samples_def noErr_def)
  from inst format have "computeRmsLevel two_quarter_samples
      = spec_rms_level (map Finite [1 / 4, - (1 / 4)])"
    by (simp add: interpreted_two_quarter_samples)
  moreover from inst have "spec_rms_level (map Finite [1 / 4, - (1 / 4)])
      = Finite (min 1 (sqrt (sum_list (map (\<lambda>x. x * x) [1 / 4, - (1 / 4 :: real)]) / real (length [1 / 4, - (1 / 4 :: real)])) * 2.8))"
    by blast
  ultimately have level: "computeRmsLevel two_quarter_samples = Finite (7 / 10)"
    by (simp add: sqrt_sixteenth)
  have accepts: "assetWriterError writer_accepts = None \<and> canAdd writer_accepts \<and> startWriting writer_accepts"
    "isReadyForMoreMediaData writer_accepts \<longrightarrow> appendResult writer_accepts"
    by (simp_all add: writer_accepts_def)
  have first: "active (run_events [] (started 0))" "smoothedLevel (run_events [] (started 0)) = Finite 0"
    by (simp_all add: active_def recorder_defs)
  with accepts inst [where events = "[]" and tenv = "\<lparr>now = 1, fileSize = Some 44\<rparr>"]
  have "smoothedLevel (run_events ([] @ [SampleBuffer audio True two_quarter_samples writer_accepts
        \<lparr>now = 1, fileSize = Some 44\<rparr>]) (started 0))
      = clamped (fadd (fmul (Finite 0) (Finite 0.75))
                      (fmul (computeRmsLevel two_quarter_samples) (Finite 0.25)))
          (Finite 0) (Finite 1)"
    by simp
  also have "\<dots> = clamped (fadd (fmul (Finite 0) (Finite 0.75))
                      (fmul (Finite (7 / 10)) (Finite 0.25))) (Finite 0) (Finite 1)"
    by (simp add: level)
  also from inst [where a = 0 and b = "7 / 10"] have "\<dots> = Finite (0 * 0.75 + 7 / 10 * 0.25)"
    by simp
  finally have one: "smoothedLevel (run_events [audio_sample 1] (started 0)) = Finite (7 / 40)"
    by (simp add: audio_sample_def)
  have going: "active (run_events [audio_sample 1] (started 0))"
    by (simp add: active_def recorder_defs example_defs)
  with accepts inst [where events = "[audio_sample 1]" and tenv = "\<lparr>now = 2, fileSize = Some 44\<rparr>"]
  have "smoothedLevel (run_events ([audio_sample 1] @ [SampleBuffer audio True two_quarter_samples
        writer_accepts \<lparr>now = 2, fileSize = Some 44\<rparr>]) (started 0))
      = clamped (fadd (fmul (smoothedLevel (run_events [audio_sample 1] (started 0))) (Finite 0.75))
                      (fmul (computeRmsLevel two_quarter_samples) (Finite 0.25)))
          (Finite 0) (Finite 1)"
    by simp
  also have "\<dots> = clamped (fadd (fmul (Finite (7 / 40)) (Finite 0.75))
                      (fmul (Finite (7 / 10)) (Finite 0.25))) (Finite 0) (Finite 1)"
    by (simp add: level one)
  also from inst [where a = "7 / 40" and b = "7 / 10"] have "\<dots> = Finite (7 / 40 * 0.75 + 7 / 10 * 0.25)"
    by simp
  finally have two: "smoothedLevel (run_events [audio_sample 1, audio_sample 2] (started 0))
      = Finite (49 / 160)"
    by (simp add: audio_sample_def)
  from level one two show ?thesis by simp
qed

theorem computeRmsLevel_total_in_unit_range_witness:
  "computeRmsLevel no_format = Finite 0 \<and> in_unit_range (computeRmsLevel two_quarter_samples)"
  using computeRmsLevel_total_in_unit_range [of no_format]
    computeRmsLevel_total_in_unit_range [of two_quarter_samples]
  by (simp add: no_format_def)

subsection \<open>No-sample error\<close>

lemma stream_not_emitted:
  assumes "\<not> emittedNoSampleError s" "active s"
  shows "\<not> emittedNoSampleError (stream outputType isValid sampleBuffer wenv tenv s)"
  using assms
proof (induction rule: stream_invariant)
  case (level s)
  then show ?case by (simp add: emitTelemetry_received)
qed simp_all

lemma stdinHandler_trace: "trace (stdinHandler availableData decoded s) = trace s"
  by (simp add: stdinHandler_def split: option.splits)

text \<open>
  Claim C4, amended. In every run the no-sample error line is written at most once. A run
  that has written it is over, after a stop request, and never received a valid audio sample.
  No call of the sample handler and no input on standard input writes it: it is written by
  the forced final emission alone, exactly when \<^verbatim>\<open>stopCapture\<close> has returned normally, no
  valid audio sample was ever received and more than 2.5 s have passed since the start.
\<close>

theorem no_sample_error_only_at_final_emission:
  "count_list (trace (run_events events (started date))) (Stderr (SckError NoAudioSamples)) \<le> 1 \<and>
   (count_list (trace (run_events events (started date))) (Stderr (SckError NoAudioSamples)) = 1 \<longrightarrow>
      \<not> hasReceivedAudioSample (run_events events (started date)) \<and>
      stopRequested (run_events events (started date)) \<and>
      \<not> active (run_events events (started date))) \<and>
   count_list (trace (step (SampleBuffer outputType isValid sampleBuffer wenv tenv)
                  (run_events events (started date)))) (Stderr (SckError NoAudioSamples))
     = count_list (trace (run_events events (started date))) (Stderr (SckError NoAudioSamples)) \<and>
   count_list (trace (step (StdinReadable availableData decoded)
                  (run_events events (started date)))) (Stderr (SckError NoAudioSamples))
     = count_list (trace (run_events events (started date))) (Stderr (SckError NoAudioSamples)) \<and>
   (run (run_events events (started date)) = Resumed \<longrightarrow>
      count_list (trace (step (StopCaptureReturns stopCaptureError tenv)
                     (run_events events (started date)))) (Stderr (SckError NoAudioSamples))
        = (if stopCaptureError = None
              \<and> \<not> hasReceivedAudioSample (run_events events (started date))
              \<and> now tenv - date > 2.5
           then 1 else 0))"
proof -
  let ?s = "run_events events (started date)"
  let ?line = "Stderr (SckError NoAudioSamples)"
  have inv: "no_sample_inv date ?s" by (rule no_sample_inv_run_events)
  then have ok: "no_sample_ok date ?s" by (simp add: no_sample_inv_def)
  from ok have count: "count_list (trace ?s) ?line = (if emittedNoSampleError ?s then 1 else 0)"
    and latched: "emittedNoSampleError ?s \<longrightarrow>
        \<not> hasReceivedAudioSample ?s \<and> stopRequested ?s \<and> \<not> active ?s"
    and start: "startedAt ?s = date"
    by (simp_all add: no_sample_ok_def)
  have 1: "count_list (trace ?s) ?line \<le> 1"
    unfolding count by simp
  have 2: "\<not> hasReceivedAudioSample ?s \<and> stopRequested ?s \<and> \<not> active ?s"
    if "count_list (trace ?s) ?line = 1"
  proof -
    from that have "emittedNoSampleError ?s"
      unfolding count by (cases "emittedNoSampleError ?s") simp_all
    with latched show ?thesis by blast
  qed
  have 3: "count_list (trace (step (SampleBuffer outputType isValid sampleBuffer wenv tenv) ?s)) ?line
      = count_list (trace ?s) ?line"
  proof (cases "active ?s")
    case False
    then show ?thesis by (simp add: active_def)
  next
    case True
    let ?s' = "step (SampleBuffer outputType isValid sampleBuffer wenv tenv) ?s"
    from inv True have quiet: "\<not> emittedNoSampleError ?s" by (rule no_sample_inv_active)
    then have "\<not> emittedNoSampleError (stream outputType isValid sampleBuffer wenv tenv ?s)"
      using True by (rule stream_not_emitted)
    with True have quiet': "\<not> emittedNoSampleError ?s'" by (simp add: active_def)
    have "no_sample_inv date ?s'"
      using no_sample_inv_run_events
        [of date "events @ [SampleBuffer outputType isValid sampleBuffer wenv tenv]"]
      by (simp only: run_events_snoc)
    with quiet' have "count_list (trace ?s') ?line = 0"
      by (simp add: no_sample_inv_def no_sample_ok_def)
    moreover from quiet have "count_list (trace ?s) ?line = 0"
      unfolding count by simp
    ultimately show ?thesis by simp
  qed
  have 4: "count_list (trace (step (StdinReadable availableData decoded) ?s)) ?line
      = count_list (trace ?s) ?line"
    by (simp add: stdinHandler_trace)
  have 5: "count_list (trace (step (StopCaptureReturns stopCaptureError tenv) ?s)) ?line
        = (if stopCaptureError = None \<and> \<not> hasReceivedAudioSample ?s \<and> now tenv - date > 2.5
           then 1 else 0)"
    if resumed: "run ?s = Resumed"
  proof -
    from resumed have "active ?s" by (simp add: active_def)
    with inv have quiet: "\<not> emittedNoSampleError ?s" by (rule no_sample_inv_active)
    then have "count_list (trace ?s) ?line = 0"
      unfolding count by simp
    with run_finish_no_sample(2) [OF quiet, of stopCaptureError tenv] resumed start show ?thesis
      by simp
  qed
  from 1 2 3 4 5 show ?thesis by blast
qed

theorem no_sample_error_only_at_final_emission_witness:
  "count_list
     (trace (run_events
        [StdinReadable [] None, StopCaptureReturns None \<lparr>now = 4, fileSize = None\<rparr>] (started 0)))
     (Stderr (SckError NoAudioSamples)) = 1"
proof -
  have resumed: "run (run_events [StdinReadable [] None] (started 0)) = Resumed"
    and silent: "\<not> hasReceivedAudioSample (run_events [StdinReadable [] None] (started 0))"
    by (simp_all add: recorder_defs)
  have "run_events [StdinReadable [] None, StopCaptureReturns None \<lparr>now = 4, fileSize = None\<rparr>]
          (started 0)
        = step (StopCaptureReturns None \<lparr>now = 4, fileSize = None\<rparr>)
            (run_events [StdinReadable [] None] (started 0))"
    using run_events_snoc [of "[StdinReadable [] None]"] by simp
  with resumed silent
    no_sample_error_only_at_final_emission
      [where events = "[StdinReadable [] None]" and date = 0 and stopCaptureError = None
         and tenv = "\<lparr>now = 4, fileSize = None\<rparr>"]
  show ?thesis by simp
qed

text \<open>
  Against claim C4 as stated: no valid audio sample arrives within 2.5 s of the start (an
  invalid buffer at 3 s, the first valid one at 3.5 s), the run is stopped and ends
  normally, and no no-sample error line is written.
\<close>

theorem no_sample_error_not_emitted_counterexample:
  "trace (run_events
     [SampleBuffer audio False two_quarter_samples writer_accepts \<lparr>now = 3, fileSize = None\<rparr>,
      audio_sample (7 / 2),
      StdinReadable ''q'' (Some ''q''),
      StopCaptureReturns None \<lparr>now = 4, fileSize = Some 44\<rparr>] (started 0))
   = [InitializeWriter None, Append True, EmitTelemetry (7 / 2) False,
      Stderr (TotalSize 44), Stderr (OutTimeUs 3500000), Stderr (Level (Finite (7 / 40))),
      StopCapture None, MarkAsFinished, FinishWriting, EmitTelemetry 4 True,
      Stderr (TotalSize 44), Stderr (OutTimeUs 4000000), Stderr (Level (Finite (7 / 40))), Exit 0]"
  by (simp add: recorder_defs example_defs)

subsection \<open>Throttle\<close>

lemma forced_ok_run_events: "forced_ok (run_events events (started date))"
proof -
  have "forced_ok (started date)"
    by (simp add: forced_ok_def control_ok_started) (simp add: started_def run_start_def init_def)
  then show ?thesis
  proof (induction rule: run_events_invariant)
    case (level s tenv sampleBuffer)
    then show ?case
      by (simp add: forced_ok_def control_ok_emitTelemetry emitTelemetry_emissions)
  next
    case (finish s stopCaptureError tenv)
    then have "stopRequested s" by (simp add: forced_ok_def control_ok_def)
    with finish show ?case
      by (simp add: forced_ok_def control_ok_run_finish run_finish_fields)
  qed (simp_all add: forced_ok_def control_ok_requestStop)
qed

lemma stream_throttled:
  assumes "now tenv - lastTelemetry self < 0.20"
  shows "total_size_lines (trace (stream outputType isValid sampleBuffer wenv tenv self))
           = total_size_lines (trace self)"
    and "out_time_lines (trace (stream outputType isValid sampleBuffer wenv tenv self))
           = out_time_lines (trace self)"
    and "level_lines (trace (stream outputType isValid sampleBuffer wenv tenv self))
           = level_lines (trace self)"
  using assms
  by (auto simp: stream_def initializeWriterIfNeeded_def initializeWriter_def appendSampleBuffer_def
      updateLevel_eq emitTelemetry_throttled Let_def split: option.splits)

text \<open>
  Claim C5. In every run, any two telemetry emissions that were not forced are at least
  0.2 s apart (the later time minus the earlier one, as read from the clock); a forced
  emission can only be the last emission of the run, and it comes after a stop request,
  when the run is over. The emissions are the updates written to standard error: the
  \<^verbatim>\<open>out_time_us=\<close> lines of a run are, in order, the elapsed microseconds of its emissions
  (but for a last emission that the trap of the conversion has stopped, which writes none),
  and there are as many \<^verbatim>\<open>total_size=\<close> and \<^verbatim>\<open>level=\<close> lines as \<^verbatim>\<open>out_time_us=\<close> lines.
  A call of \<^verbatim>\<open>emitTelemetry\<close> without force less than 0.2 s after the last emission changes
  nothing, and a call of the sample handler at such a time writes no telemetry line.
\<close>

theorem telemetry_throttled:
  "(\<forall>i j. i < j \<and> j < length (unforced_times (trace (run_events events (started date)))) \<longrightarrow>
      0.2 \<le> unforced_times (trace (run_events events (started date))) ! j
            - unforced_times (trace (run_events events (started date))) ! i) \<and>
   (\<forall>e \<in> set (butlast (emissions (trace (run_events events (started date))))). \<not> snd e) \<and>
   (list_ex snd (emissions (trace (run_events events (started date)))) \<longrightarrow>
      stopRequested (run_events events (started date)) \<and>
      \<not> active (run_events events (started date))) \<and>
   out_time_lines (trace (run_events events (started date)))
     = map (\<lambda>e. nat \<lfloor>(fst e - date) * 1000000\<rfloor>)
         (if run (run_events events (started date)) = Trapped
          then butlast (emissions (trace (run_events events (started date))))
          else emissions (trace (run_events events (started date)))) \<and>
   length (total_size_lines (trace (run_events events (started date))))
     = length (out_time_lines (trace (run_events events (started date)))) \<and>
   length (level_lines (trace (run_events events (started date))))
     = length (out_time_lines (trace (run_events events (started date)))) \<and>
   (now tenv - lastTelemetry self < 0.20 \<longrightarrow>
      emitTelemetry False tenv self = self \<and>
      total_size_lines (trace (stream outputType isValid sampleBuffer wenv tenv self))
        = total_size_lines (trace self) \<and>
      out_time_lines (trace (stream outputType isValid sampleBuffer wenv tenv self))
        = out_time_lines (trace self) \<and>
      level_lines (trace (stream outputType isValid sampleBuffer wenv tenv self))
        = level_lines (trace self))"
proof -
  let ?s = "run_events events (started date)"
  have t: "throttle_ok ?s" by (rule throttle_ok_run_events)
  then have "sorted_wrt (\<lambda>earlier later. 0.2 \<le> later - earlier) (unforced_times (trace ?s))"
    by (simp add: throttle_ok_def)
  then have 1: "0.2 \<le> unforced_times (trace ?s) ! j - unforced_times (trace ?s) ! i"
    if "i < j" "j < length (unforced_times (trace ?s))" for i j
    using that by (simp add: sorted_wrt_iff_nth_less)
  from t have 2: "\<forall>e \<in> set (butlast (emissions (trace ?s))). \<not> snd e"
    by (simp add: throttle_ok_def)
  have 3: "stopRequested ?s \<and> \<not> active ?s" if forced: "list_ex snd (emissions (trace ?s))"
  proof -
    from forced forced_ok_run_events [of events date] have "stopRequested ?s"
      by (simp add: forced_ok_def)
    moreover from forced t have "\<not> active ?s"
      by (auto simp: throttle_ok_def list_ex_iff)
    ultimately show ?thesis by simp
  qed
  have "lines_ok date ?s" by (rule lines_ok_run_events)
  then have 4: "out_time_lines (trace ?s)
      = map (\<lambda>e. nat \<lfloor>(fst e - date) * 1000000\<rfloor>)
          (if run ?s = Trapped then butlast (emissions (trace ?s)) else emissions (trace ?s))"
    and 5: "length (total_size_lines (trace ?s)) = length (out_time_lines (trace ?s))"
    and 6: "length (level_lines (trace ?s)) = length (out_time_lines (trace ?s))"
    by (simp_all add: lines_ok_def written_emissions_def)
  have 7: "emitTelemetry False tenv self = self \<and>
      total_size_lines (trace (stream outputType isValid sampleBuffer wenv tenv self))
        = total_size_lines (trace self) \<and>
      out_time_lines (trace (stream outputType isValid sampleBuffer wenv tenv self))
        = out_time_lines (trace self) \<and>
      level_lines (trace (stream outputType isValid sampleBuffer wenv tenv self))
        = level_lines (trace self)"
    if "now tenv - lastTelemetry self < 0.20"
    using that stream_throttled [OF that] by (simp add: emitTelemetry_throttled)
  from 1 2 3 4 5 6 7 show ?thesis by blast
qed

theorem telemetry_throttled_witness:
  "emissions (trace (run_events
      [audio_sample 3, audio_sample (31 / 10), audio_sample (33 / 10),
       StdinReadable ''q'' (Some ''q''),
       StopCaptureReturns None \<lparr>now = 67 / 20, fileSize = Some 44\<rparr>] (started 0)))
   = [(3, False), (33 / 10, False), (67 / 20, True)] \<and>
   (0.2 :: real) \<le>
     unforced_times (trace (run_events
      [audio_sample 3, audio_sample (31 / 10), audio_sample (33 / 10),
       StdinReadable ''q'' (Some ''q''),
       StopCaptureReturns None \<lparr>now = 67 / 20, fileSize = Some 44\<rparr>] (started 0))) ! 1
     - unforced_times (trace (run_events
      [audio_sample 3, audio_sample (31 / 10), audio_sample (33 / 10),
       StdinReadable ''q'' (Some ''q''),
       StopCaptureReturns None \<lparr>now = 67 / 20, fileSize = Some 44\<rparr>] (started 0))) ! 0 \<and>
   out_time_lines (trace (run_events
      [audio_sample 3, audio_sample (31 / 10), audio_sample (33 / 10),
       StdinReadable ''q'' (Some ''q''),
       StopCaptureReturns None \<lparr>now = 67 / 20, fileSize = Some 44\<rparr>] (started 0)))
   = [3000000, 3300000, 3350000] \<and>
   length (level_lines (trace (run_events
      [audio_sample 3, audio_sample (31 / 10), audio_sample (33 / 10),
       StdinReadable ''q'' (Some ''q''),
       StopCaptureReturns None \<lparr>now = 67 / 20, fileSize = Some 44\<rparr>] (started 0)))) = 3 \<and>
   level_lines (trace (step (audio_sample (31 / 10)) (run_events [audio_sample 3] (started 0))))
   = level_lines (trace (run_events [audio_sample 3] (started 0)))"
proof -
  let ?events = "[audio_sample 3, audio_sample (31 / 10), audio_sample (33 / 10),
       StdinReadable ''q'' (Some ''q''),
       StopCaptureReturns None \<lparr>now = 67 / 20, fileSize = Some 44\<rparr>]"
  note inst = telemetry_throttled [where events = ?events and date = 0
      and self = "run_events [audio_sample 3] (started 0)"
      and tenv = "\<lparr>now = 31 / 10, fileSize = Some 44\<rparr>"
      and outputType = audio and isValid = True and sampleBuffer = two_quarter_samples
      and wenv = writer_accepts]
  have em: "emissions (trace (run_events ?events (started 0)))
      = [(3, False), (33 / 10, False), (67 / 20, True)]"
    and over: "run (run_events ?events (started 0)) = Exited 0"
    by (simp_all add: recorder_defs example_defs)
  from em have len: "length (unforced_times (trace (run_events ?events (started 0)))) = 2"
    by (simp add: unforced_times_def)
  with inst have gap: "(0.2 :: real) \<le> unforced_times (trace (run_events ?events (started 0))) ! 1
      - unforced_times (trace (run_events ?events (started 0))) ! 0"
    by simp
  from inst em over have lines: "out_time_lines (trace (run_events ?events (started 0)))
      = [3000000, 3300000, 3350000]"
    by simp
  with inst have levels: "length (level_lines (trace (run_events ?events (started 0)))) = 3"
    by simp
  have last: "lastTelemetry (run_events [audio_sample 3] (started 0)) = 3"
    and going: "run (run_events [audio_sample 3] (started 0)) = Waiting"
    by (simp_all add: recorder_defs example_defs)
  with inst have "level_lines (trace (stream audio True two_quarter_samples writer_accepts
        \<lparr>now = 31 / 10, fileSize = Some 44\<rparr> (run_events [audio_sample 3] (started 0))))
      = level_lines (trace (run_events [audio_sample 3] (started 0)))"
    by simp
  with going have quiet: "level_lines (trace (step (audio_sample (31 / 10))
        (run_events [audio_sample 3] (started 0))))
      = level_lines (trace (run_events [audio_sample 3] (started 0)))"
    by (simp add: audio_sample_def)
  from em gap lines levels quiet show ?thesis by simp
qed

subsection \<open>Writer, shutdown and stop\<close>

lemma emitTelemetry_filter_initialize:
  "filter is_initialize (trace (emitTelemetry force env s)) = filter is_initialize (trace s)"
  by (simp add: emitTelemetry_def Let_def)

lemma stream_no_attempt:
  assumes "writer self \<noteq> None"
  shows "filter is_initialize (trace (stream outputType isValid sampleBuffer wenv tenv self))
         = filter is_initialize (trace self)"
  using assms
  by (auto simp: stream_def initializeWriterIfNeeded_def appendSampleBuffer_def updateLevel_eq
      emitTelemetry_filter_initialize split: option.splits)

lemma stream_init_failed:
  assumes "writer self = None"
    and "initializeWriter wenv (self\<lparr>hasReceivedAudioSample := True\<rparr>) = Inl error"
  shows "stream audio True sampleBuffer wenv tenv self
         = requestStop (self\<lparr>hasReceivedAudioSample := True,
             trace := trace self @
               [InitializeWriter (Some error), Stderr (SckError (InitializeWriterFailed error))]\<rparr>)"
  using assms by (simp add: stream_def initializeWriterIfNeeded_def)

lemma stream_guards:
  "\<not> (outputType = audio \<and> isValid) \<Longrightarrow> stream outputType isValid sampleBuffer wenv tenv self = self"
  by (auto simp: stream_def)

lemma step_not_received:
  "\<not> is_valid_audio event \<Longrightarrow> hasReceivedAudioSample (step event s) = hasReceivedAudioSample s"
proof (cases event)
  case (SampleBuffer outputType isValid sampleBuffer wenv tenv)
  assume "\<not> is_valid_audio event"
  with SampleBuffer show ?thesis by (simp add: stream_guards)
next
  case (StdinReadable availableData decoded)
  then show ?thesis by (simp add: stdinHandler_def split: option.splits)
next
  case (StopCaptureReturns stopCaptureError tenv)
  then show ?thesis by (simp add: run_finish_fields)
qed

lemma run_events_not_received:
  "\<not> list_ex is_valid_audio events \<Longrightarrow>
     hasReceivedAudioSample (run_events events s) = hasReceivedAudioSample s"
proof (induction events arbitrary: s)
  case Nil
  then show ?case by (simp add: run_events_def)
next
  case (Cons event events)
  then have "hasReceivedAudioSample (run_events events (step event s)) = hasReceivedAudioSample (step event s)"
    by simp
  with Cons.prems show ?case by (simp add: run_events_def step_not_received)
qed

lemma stream_received:
  "hasReceivedAudioSample (stream audio True sampleBuffer wenv tenv self)"
  by (auto simp: stream_def initializeWriterIfNeeded_def initializeWriter_def appendSampleBuffer_def
      updateLevel_eq Let_def split: option.splits)

lemma stream_first_attempt:
  assumes "writer self = None"
  shows "filter is_initialize (trace (stream audio True sampleBuffer wenv tenv self))
         = filter is_initialize (trace self)
           @ [InitializeWriter (case initializeWriter wenv self of Inl error \<Rightarrow> Some error | Inr self' \<Rightarrow> None)]"
  using assms
  by (auto simp: stream_def initializeWriterIfNeeded_def initializeWriter_def appendSampleBuffer_def
      updateLevel_eq emitTelemetry_filter_initialize split: option.splits)

lemma stream_opens_writer:
  assumes "writer self = None" "assetWriterError wenv = None" "canAdd wenv" "startWriting wenv"
  shows "writer (stream audio True sampleBuffer wenv tenv self) = Some AVAssetWriter"
  using assms
  by (auto simp: stream_def initializeWriterIfNeeded_def initializeWriter_def appendSampleBuffer_def
      updateLevel_eq Let_def split: option.splits)

text \<open>
  Claim C6, amended. In every run in which no valid audio sample has arrived, no sample is
  marked as received, there is no writer, no writer input and no attempt to initialize one; a
  buffer of another type, or an invalid one, changes nothing. Called with a valid audio sample
  on a recorder without writer, the handler makes exactly one attempt, and the writer exists
  when the call returns if the attempt succeeds. As long as no sample is marked as received
  there is no writer. At most one initialization succeeds: the trace holds one successful
  initialization when a writer exists and none otherwise, and a call of the handler on a
  recorder that has a writer makes no attempt. A failed initialization writes its
  \<^verbatim>\<open>sck_error\<close> line and requests stop, within the same call of the handler; from then on
  the stop is requested and \<^verbatim>\<open>run()\<close> no longer waits.
\<close>

theorem writer_opened_by_first_valid_sample:
  "(\<not> list_ex is_valid_audio events \<longrightarrow>
      \<not> hasReceivedAudioSample (run_events events (started date)) \<and>
      writer (run_events events (started date)) = None \<and>
      writerInput (run_events events (started date)) = None \<and>
      \<not> list_ex is_initialize (trace (run_events events (started date)))) \<and>
   (\<not> (outputType = audio \<and> isValid) \<longrightarrow>
      stream outputType isValid sampleBuffer wenv tenv self = self) \<and>
   (writer self = None \<longrightarrow>
      filter is_initialize (trace (stream audio True sampleBuffer wenv tenv self))
        = filter is_initialize (trace self)
          @ [InitializeWriter
               (case initializeWriter wenv self of Inl thrown \<Rightarrow> Some thrown | Inr self' \<Rightarrow> None)]) \<and>
   (writer self = None \<and> assetWriterError wenv = None \<and> canAdd wenv \<and> startWriting wenv \<longrightarrow>
      writer (stream audio True sampleBuffer wenv tenv self) = Some AVAssetWriter) \<and>
   (\<not> hasReceivedAudioSample (run_events events (started date)) \<longrightarrow>
      writer (run_events events (started date)) = None \<and>
      writerInput (run_events events (started date)) = None \<and>
      \<not> list_ex is_initialize (trace (run_events events (started date)))) \<and>
   count_list (trace (run_events events (started date))) (InitializeWriter None)
     = (if writer (run_events events (started date)) = None then 0 else 1) \<and>
   (writer self \<noteq> None \<longrightarrow>
      filter is_initialize (trace (stream outputType isValid sampleBuffer wenv tenv self))
        = filter is_initialize (trace self)) \<and>
   (writer self = None \<and>
    initializeWriter wenv (self\<lparr>hasReceivedAudioSample := True\<rparr>) = Inl error \<longrightarrow>
      stream audio True sampleBuffer wenv tenv self
        = requestStop (self\<lparr>hasReceivedAudioSample := True,
            trace := trace self @
              [InitializeWriter (Some error), Stderr (SckError (InitializeWriterFailed error))]\<rparr>)) \<and>
   (list_ex is_failed_initialize (trace (run_events events (started date))) \<longrightarrow>
      stopRequested (run_events events (started date)) \<and>
      run (run_events events (started date)) \<noteq> Waiting)"
proof -
  let ?s = "run_events events (started date)"
  have w: "writer_ok ?s" by (rule writer_ok_run_events)
  have c: "control_ok ?s" by (rule control_ok_run_events)
  from w have 1: "writer ?s = None \<and> writerInput ?s = None \<and> \<not> list_ex is_initialize (trace ?s)"
    if "\<not> hasReceivedAudioSample ?s"
    using that by (auto simp: writer_ok_def)
  have 0: "\<not> hasReceivedAudioSample ?s \<and> writer ?s = None \<and> writerInput ?s = None
      \<and> \<not> list_ex is_initialize (trace ?s)"
    if quiet: "\<not> list_ex is_valid_audio events"
  proof -
    have "\<not> hasReceivedAudioSample (started date)"
      by (simp add: started_def run_start_def init_def)
    with run_events_not_received [OF quiet, of "started date"]
    have "\<not> hasReceivedAudioSample ?s" by simp
    with 1 show ?thesis by simp
  qed
  from w have 2: "count_list (trace ?s) (InitializeWriter None) = (if writer ?s = None then 0 else 1)"
    by (simp add: writer_ok_def)
  from w c have 5: "stopRequested ?s \<and> run ?s \<noteq> Waiting"
    if "list_ex is_failed_initialize (trace ?s)"
    using that by (auto simp: writer_ok_def control_ok_def)
  from 0 1 2 5 stream_no_attempt [of self outputType isValid sampleBuffer wenv tenv]
    stream_init_failed [of self wenv error sampleBuffer tenv]
    stream_guards [of outputType isValid sampleBuffer wenv tenv self]
    stream_first_attempt [of self sampleBuffer wenv tenv]
    stream_opens_writer [of self wenv sampleBuffer tenv]
  show ?thesis by blast
qed

theorem writer_opened_by_first_valid_sample_witness:
  "writer (run_events
     [SampleBuffer screen True two_quarter_samples writer_accepts \<lparr>now = 1, fileSize = None\<rparr>,
      SampleBuffer audio False two_quarter_samples writer_accepts \<lparr>now = 2, fileSize = None\<rparr>]
     (started 0)) = None \<and>
   filter is_initialize (trace (stream audio True two_quarter_samples writer_accepts
       \<lparr>now = 3, fileSize = None\<rparr> (started 0))) = [InitializeWriter None] \<and>
   count_list (trace (run_events [audio_sample 1, audio_sample 2] (started 0))) (InitializeWriter None) = 1 \<and>
   stopRequested (stream audio True two_quarter_samples writer_rejects \<lparr>now = 1, fileSize = None\<rparr> (started 0))"
proof -
  let ?quiet = "[SampleBuffer screen True two_quarter_samples writer_accepts \<lparr>now = 1, fileSize = None\<rparr>,
      SampleBuffer audio False two_quarter_samples writer_accepts \<lparr>now = 2, fileSize = None\<rparr>]"
  have "\<not> list_ex is_valid_audio ?quiet" by simp
  with writer_opened_by_first_valid_sample [where events = ?quiet and date = 0]
  have 0: "writer (run_events ?quiet (started 0)) = None"
    by blast
  have none: "writer (started 0) = None" "trace (started 0) = []"
    "initializeWriter writer_accepts (started 0)
      = Inr ((started 0)\<lparr>writer := Some AVAssetWriter, writerInput := Some AVAssetWriterInput\<rparr>)"
    by (simp_all add: recorder_defs)
  with writer_opened_by_first_valid_sample
    [where self = "started 0" and wenv = writer_accepts
       and sampleBuffer = two_quarter_samples and tenv = "\<lparr>now = 3, fileSize = None\<rparr>"]
  have 4: "filter is_initialize (trace (stream audio True two_quarter_samples writer_accepts
       \<lparr>now = 3, fileSize = None\<rparr> (started 0))) = [InitializeWriter None]"
    by simp
  have "writer (run_events [audio_sample 1, audio_sample 2] (started 0)) \<noteq> None"
    by (simp add: recorder_defs example_defs)
  with writer_opened_by_first_valid_sample [where events = "[audio_sample 1, audio_sample 2]" and date = 0]
  have 1: "count_list (trace (run_events [audio_sample 1, audio_sample 2] (started 0)))
      (InitializeWriter None) = 1"
    by simp
  have "writer (started 0) = None"
    "initializeWriter writer_rejects ((started 0)\<lparr>hasReceivedAudioSample := True\<rparr>)
      = Inl (Recorder writerInputRejected)"
    by (simp_all add: recorder_defs)
  with writer_opened_by_first_valid_sample
    [where self = "started 0" and wenv = writer_rejects and error = "Recorder writerInputRejected"
       and sampleBuffer = two_quarter_samples and tenv = "\<lparr>now = 1, fileSize = None\<rparr>"]
  have "stream audio True two_quarter_samples writer_rejects \<lparr>now = 1, fileSize = None\<rparr> (started 0)
      = requestStop ((started 0)\<lparr>hasReceivedAudioSample := True,
            trace := trace (started 0) @
              [InitializeWriter (Some (Recorder writerInputRejected)),
               Stderr (SckError (InitializeWriterFailed (Recorder writerInputRejected)))]\<rparr>)"
    by blast
  then have 3: "stopRequested (stream audio True two_quarter_samples writer_rejects
      \<lparr>now = 1, fileSize = None\<rparr> (started 0))"
    by simp
  from 0 1 3 4 show ?thesis by simp
qed

text \<open>
  Against claim C6 as stated: the initialization fails on the first valid sample, a second
  valid sample arrives before capture has stopped, and the writer is initialized a second
  time.
\<close>

theorem second_initialization_attempt_counterexample:
  "trace (run_events
     [SampleBuffer audio True two_quarter_samples writer_rejects \<lparr>now = 1, fileSize = None\<rparr>,
      SampleBuffer audio True two_quarter_samples writer_rejects \<lparr>now = 2, fileSize = None\<rparr>] (started 0))
   = [InitializeWriter (Some (Recorder writerInputRejected)),
      Stderr (SckError (InitializeWriterFailed (Recorder writerInputRejected))),
      InitializeWriter (Some (Recorder writerInputRejected)),
      Stderr (SckError (InitializeWriterFailed (Recorder writerInputRejected)))] \<and>
   length (filter is_initialize (trace (run_events
     [SampleBuffer audio True two_quarter_samples writer_rejects \<lparr>now = 1, fileSize = None\<rparr>,
      SampleBuffer audio True two_quarter_samples writer_rejects \<lparr>now = 2, fileSize = None\<rparr>] (started 0))))
   = 2"
  by (simp add: recorder_defs example_defs)

lemma run_finish_graceful:
  assumes "run self = Resumed"
    and "- 1 < (now tenv - startedAt self) * 1000000"
    and "(now tenv - startedAt self) * 1000000 < 18446744073709551616"
  shows "trace (run_finish None tenv self)
         = trace self @ [StopCapture None]
           @ (if writer self \<noteq> None \<and> writerInput self \<noteq> None
              then [MarkAsFinished, FinishWriting] else [])
           @ [EmitTelemetry (now tenv) True]
           @ (if \<not> hasReceivedAudioSample self \<and> \<not> emittedNoSampleError self
                 \<and> now tenv - startedAt self > 2.5
              then [Stderr (SckError NoAudioSamples)] else [])
           @ [Stderr (TotalSize (case fileSize tenv of Some n \<Rightarrow> n | None \<Rightarrow> 0)),
              Stderr (OutTimeUs (nat \<lfloor>(now tenv - startedAt self) * 1000000\<rfloor>)),
              Stderr (Level (smoothedLevel self)),
              Exit 0]"
    and "run (run_finish None tenv self) = Exited 0"
  using assms
  by (simp_all add: run_finish_def emitTelemetry_def finalizeWriter_trace Let_def not_le)

lemma stop_request_resumes:
  "stopRequested (run_events events (started date)) \<Longrightarrow>
     run (run_events events (started date)) \<noteq> Waiting"
  using control_ok_run_events [of events date] by (auto simp: control_ok_def)

lemma run_finish_finalizes:
  assumes "run self = Resumed"
  shows "\<exists>lines. trace (run_finish None tenv self)
         = trace self @ [StopCapture None]
           @ (if writer self \<noteq> None \<and> writerInput self \<noteq> None
              then [MarkAsFinished, FinishWriting] else [])
           @ [EmitTelemetry (now tenv) True] @ lines"
  using assms
  by (simp add: run_finish_def emitTelemetry_def finalizeWriter_trace Let_def)

lemma unfinalized_while_active:
  "active (run_events events (started date)) \<Longrightarrow>
     \<not> finalized (trace (run_events events (started date)))"
proof -
  have "active (started date) \<longrightarrow> \<not> finalized (trace (started date))"
    by (simp add: started_def run_start_def init_def)
  then have "active (run_events events (started date))
      \<longrightarrow> \<not> finalized (trace (run_events events (started date)))"
  proof (induction rule: run_events_invariant)
    case (level s tenv sampleBuffer)
    then show ?case by (simp add: emitTelemetry_finalized)
  next
    case (finish s stopCaptureError tenv)
    then show ?case by (simp add: run_finish_inactive)
  qed simp_all
  then show "active (run_events events (started date)) \<Longrightarrow>
     \<not> finalized (trace (run_events events (started date)))" by simp
qed

lemma stop_capture_throws_unfinalized:
  assumes "run (run_events events (started date)) = Resumed"
  shows "\<not> finalized (trace (run_events (events @ [StopCaptureReturns (Some error) tenv]) (started date)))"
    and "run (run_events (events @ [StopCaptureReturns (Some error) tenv]) (started date)) = Exited 1"
proof -
  from assms have "active (run_events events (started date))" by (simp add: active_def)
  then have "\<not> finalized (trace (run_events events (started date)))"
    by (rule unfinalized_while_active)
  with assms show
    "\<not> finalized (trace (run_events (events @ [StopCaptureReturns (Some error) tenv]) (started date)))"
    by (simp add: run_events_snoc run_finish_error)
  from assms show
    "run (run_events (events @ [StopCaptureReturns (Some error) tenv]) (started date)) = Exited 1"
    by (simp add: run_events_snoc run_finish_error)
qed

text \<open>
  Claim C7. A writer exists, a stop is requested and \<^verbatim>\<open>stopCapture\<close> throws: \<^verbatim>\<open>run()\<close> is
  left at once, the writer input is not marked as finished and \<^verbatim>\<open>finishWriting\<close> is not
  called, no final telemetry is emitted, and the process exits with status 1 after an error
  line. The same run with \<^verbatim>\<open>stopCapture\<close> returning normally marks the input as finished,
  completes \<^verbatim>\<open>finishWriting\<close>, then emits the final telemetry and exits with status 0.
\<close>

theorem stop_capture_failure_skips_finalization:
  "trace (run_events
     [audio_sample 1, StdinReadable ''q'' (Some ''q''),
      StopCaptureReturns (Some (Foreign ''stream already stopped'')) \<lparr>now = 2, fileSize = Some 44\<rparr>]
     (started 0))
   = [InitializeWriter None, Append True, EmitTelemetry 1 False,
      Stderr (TotalSize 44), Stderr (OutTimeUs 1000000), Stderr (Level (Finite (7 / 40))),
      StopCapture (Some (Foreign ''stream already stopped'')),
      Stderr (SckError (RunFailed (Foreign ''stream already stopped''))), Exit 1] \<and>
   writer (run_events
     [audio_sample 1, StdinReadable ''q'' (Some ''q''),
      StopCaptureReturns (Some (Foreign ''stream already stopped'')) \<lparr>now = 2, fileSize = Some 44\<rparr>]
     (started 0)) = Some AVAssetWriter \<and>
   \<not> finalized (trace (run_events
     [audio_sample 1, StdinReadable ''q'' (Some ''q''),
      StopCaptureReturns (Some (Foreign ''stream already stopped'')) \<lparr>now = 2, fileSize = Some 44\<rparr>]
     (started 0))) \<and>
   trace (run_events
     [audio_sample 1, StdinReadable ''q'' (Some ''q''),
      StopCaptureReturns None \<lparr>now = 2, fileSize = Some 44\<rparr>] (started 0))
   = [InitializeWriter None, Append True, EmitTelemetry 1 False,
      Stderr (TotalSize 44), Stderr (OutTimeUs 1000000), Stderr (Level (Finite (7 / 40))),
      StopCapture None, MarkAsFinished, FinishWriting, EmitTelemetry 2 True,
      Stderr (TotalSize 44), Stderr (OutTimeUs 2000000), Stderr (Level (Finite (7 / 40))), Exit 0]"
  by (simp add: recorder_defs example_defs)

text \<open>
  Claim C8. \<open>requestStop\<close> is idempotent: a second request leaves the recorder as the
  first one left it, a request on a recorder whose stop is already requested changes
  nothing and writes nothing, and the same stop input served twice has the effect of serving
  it once, in every state of the recorder (waiting, stopping or over).
\<close>

theorem requestStop_idempotent:
  "requestStop (requestStop self) = requestStop self \<and>
   (stopRequested self \<longrightarrow> requestStop self = self) \<and>
   step (StdinReadable availableData decoded) (step (StdinReadable availableData decoded) self)
     = step (StdinReadable availableData decoded) self"
proof -
  have 1: "requestStop (requestStop self) = requestStop self"
    by (simp add: requestStop_def)
  have 2: "stopRequested self \<longrightarrow> requestStop self = self"
    by (simp add: requestStop_def)
  have 3: "step (StdinReadable availableData decoded) (step (StdinReadable availableData decoded) self)
     = step (StdinReadable availableData decoded) self"
    by (auto simp: stdinHandler_def requestStop_def split: option.splits)
  from 1 2 3 show ?thesis by simp
qed

theorem requestStop_idempotent_witness:
  "stopRequested (requestStop (started 0)) \<and>
   requestStop (requestStop (started 0)) = requestStop (started 0) \<and>
   run_events [StdinReadable ''q'' (Some ''q''), StdinReadable ''q'' (Some ''q'')] (started 0)
     = run_events [StdinReadable ''q'' (Some ''q'')] (started 0)"
  using requestStop_idempotent [of "requestStop (started 0)" "''q''" "Some ''q''"]
    requestStop_idempotent [of "started 0" "''q''" "Some ''q''"]
  by (simp add: run_events_def)

end
